theory Spec2Isabelle
  imports Main "HOL-Library.Word" "HOL-Library.Monad_Syntax"
begin

unbundle bit_operations_syntax

section \<open>JavaScript values and operators\<close>

text \<open>
  The values the virtual machine handles are JavaScript Numbers that are always integers
  (everything comes out of a typed array, a byte buffer or a bitwise operator) and
  \<open>undefined\<close>, which a read outside a typed array yields.
\<close>

datatype jsval = Undefined | Num int

text \<open>\<open>if (v)\<close>: \<open>undefined\<close> and \<open>0\<close> are falsy.\<close>

definition truthy :: "jsval \<Rightarrow> bool" where
  "truthy v = (case v of Undefined \<Rightarrow> False | Num n \<Rightarrow> n \<noteq> 0)"

text \<open>
  The operand conversion of the bitwise operators: \<open>undefined\<close> becomes NaN and NaN becomes 0;
  a Number is reduced modulo \<open>2^32\<close> by the operators below.
\<close>

definition toInt32 :: "jsval \<Rightarrow> int" where
  "toInt32 v = (case v of Undefined \<Rightarrow> 0 | Num n \<Rightarrow> sint (word_of_int n :: 32 word))"

text \<open>The conversion on a store into a \<open>Uint16Array\<close> and in \<open>String.fromCharCode\<close>.\<close>

definition toUint16 :: "jsval \<Rightarrow> 16 word" where
  "toUint16 v = (case v of Undefined \<Rightarrow> 0 | Num n \<Rightarrow> word_of_int n)"

text \<open>
  \<open>a >> k\<close>, \<open>a << k\<close>, \<open>a & b\<close>, \<open>a | b\<close> and \<open>~a\<close>: both operands are taken as signed
  32-bit integers, the shift count modulo 32, and the result is a signed 32-bit integer.
\<close>

definition js_shr :: "int \<Rightarrow> int \<Rightarrow> int" where
  "js_shr a k = sint (signed_drop_bit (nat (k mod 32)) (word_of_int a :: 32 word))"

definition js_shl :: "int \<Rightarrow> int \<Rightarrow> int" where
  "js_shl a k = sint (push_bit (nat (k mod 32)) (word_of_int a :: 32 word))"

definition js_and :: "int \<Rightarrow> int \<Rightarrow> int" where
  "js_and a b = sint ((word_of_int a :: 32 word) AND word_of_int b)"

definition js_or :: "int \<Rightarrow> int \<Rightarrow> int" where
  "js_or a b = sint ((word_of_int a :: 32 word) OR word_of_int b)"

definition js_not :: "int \<Rightarrow> int" where
  "js_not a = sint (NOT (word_of_int a :: 32 word))"

section \<open>Constants\<close>

definition R0 :: nat where "R0 = 0"
definition R7 :: nat where "R7 = 7"
definition PC :: nat where "PC = 8"
definition COND :: nat where "COND = 9"

definition OP_BR :: int where "OP_BR = 0"
definition OP_ADD :: int where "OP_ADD = 1"
definition OP_LD :: int where "OP_LD = 2"
definition OP_ST :: int where "OP_ST = 3"
definition OP_JSR :: int where "OP_JSR = 4"
definition OP_AND :: int where "OP_AND = 5"
definition OP_LDR :: int where "OP_LDR = 6"
definition OP_STR :: int where "OP_STR = 7"
definition OP_RTI :: int where "OP_RTI = 8"
definition OP_NOT :: int where "OP_NOT = 9"
definition OP_LDI :: int where "OP_LDI = 10"
definition OP_STI :: int where "OP_STI = 11"
definition OP_JMP :: int where "OP_JMP = 12"
definition OP_RES :: int where "OP_RES = 13"
definition OP_LEA :: int where "OP_LEA = 14"
definition OP_TRAP :: int where "OP_TRAP = 15"

definition FL_POS :: int where "FL_POS = 1"
definition FL_ZRO :: int where "FL_ZRO = 2"
definition FL_NEG :: int where "FL_NEG = 4"

definition TRAP_GETC :: int where "TRAP_GETC = 0x20"
definition TRAP_OUT :: int where "TRAP_OUT = 0x21"
definition TRAP_PUTS :: int where "TRAP_PUTS = 0x22"
definition TRAP_IN :: int where "TRAP_IN = 0x23"
definition TRAP_PUTSP :: int where "TRAP_PUTSP = 0x24"
definition TRAP_HALT :: int where "TRAP_HALT = 0x25"

definition MR_KBSR :: int where "MR_KBSR = 0xfe00"
definition MR_KBDR :: int where "MR_KBDR = 0xfe02"

text \<open>\<open>new Uint16Array(0xffff)\<close> and \<open>new Uint16Array(10)\<close>: the lengths of the two arrays.\<close>

definition MEMORY_LENGTH :: int where "MEMORY_LENGTH = 0xffff"
definition REGISTERS_LENGTH :: nat where "REGISTERS_LENGTH = 10"

section \<open>The state of the machine\<close>

text \<open>
  \<^item> \<open>memory\<close>: the cells of the \<open>Uint16Array\<close> \<open>memory\<close>; only the indices below
    \<open>MEMORY_LENGTH\<close> exist, and every access checks the index.
  \<^item> \<open>memory_undefined\<close>: the property of the array object \<open>memory\<close> named \<open>"undefined"\<close>.
    \<open>memory[undefined]\<close> is not an element access: it reads and writes that ordinary
    property, which does not exist (reads \<open>undefined\<close>) until it is written.
  \<^item> \<open>registers\<close>: the cells of the \<open>Uint16Array\<close> \<open>registers\<close>. Every index the code
    uses is one of the constants \<open>R0\<close>, \<open>R7\<close>, \<open>PC\<close>, \<open>COND\<close> or a 3-bit field.
  \<^item> \<open>stdout\<close>: the UTF-16 code units of the strings given to \<open>process.stdout.write\<close>,
    in order.
  \<^item> \<open>stdin\<close>: what the keyboard will deliver. \<open>Some b\<close> is a \<open>'data'\<close> event whose buffer
    starts with the byte \<open>b\<close>; \<open>None\<close> is one polling window that passes without an event.
    After the end of the list no event ever arrives.
\<close>

record vm =
  memory :: "nat \<Rightarrow> 16 word"
  memory_undefined :: jsval
  registers :: "nat \<Rightarrow> 16 word"
  stdout :: "16 word list"
  stdin :: "8 word option list"

text \<open>\<open>memory[address]\<close> as an expression.\<close>

definition mem_get :: "vm \<Rightarrow> jsval \<Rightarrow> jsval" where
  "mem_get s address =
     (case address of
        Undefined \<Rightarrow> memory_undefined s
      | Num i \<Rightarrow> if 0 \<le> i \<and> i < MEMORY_LENGTH then Num (uint (memory s (nat i))) else Undefined)"

text \<open>\<open>memory[address] = value\<close>: a store outside the array is dropped without an error.\<close>

definition mem_set :: "jsval \<Rightarrow> jsval \<Rightarrow> vm \<Rightarrow> vm" where
  "mem_set address v s =
     (case address of
        Undefined \<Rightarrow> s\<lparr>memory_undefined := v\<rparr>
      | Num i \<Rightarrow> if 0 \<le> i \<and> i < MEMORY_LENGTH
                 then s\<lparr>memory := (memory s)(nat i := toUint16 v)\<rparr> else s)"

text \<open>\<open>registers[i]\<close> and \<open>registers[i] = value\<close>.\<close>

definition reg_get :: "vm \<Rightarrow> nat \<Rightarrow> int" where
  "reg_get s i = uint (registers s i)"

definition reg_set :: "nat \<Rightarrow> jsval \<Rightarrow> vm \<Rightarrow> vm" where
  "reg_set i v s =
     (if i < REGISTERS_LENGTH then s\<lparr>registers := (registers s)(i := toUint16 v)\<rparr> else s)"

text \<open>\<open>process.stdout.write(String.fromCharCode(c))\<close> and \<open>process.stdout.write(str)\<close>.\<close>

definition write_char :: "jsval \<Rightarrow> vm \<Rightarrow> vm" where
  "write_char c s = s\<lparr>stdout := stdout s @ [toUint16 c]\<rparr>"

definition write_string :: "string \<Rightarrow> vm \<Rightarrow> vm" where
  "write_string str s = s\<lparr>stdout := stdout s @ map (\<lambda>c. word_of_nat (of_char c)) str\<rparr>"

section \<open>Memory access\<close>

text \<open>
  \<open>pollForKey\<close> races the next \<open>'data'\<close> event against a timer and returns the first byte
  of the event's buffer, or \<open>undefined\<close> when the timer wins. The listener that \<open>run\<close>
  installs first sees every event before \<open>pollForKey\<close> does and calls \<open>process.exit(0)\<close>
  on the byte 3: then nothing returns (\<open>None\<close>).
\<close>

definition pollForKey :: "vm \<Rightarrow> (jsval \<times> vm) option" where
  "pollForKey s =
     (case stdin s of
        [] \<Rightarrow> Some (Undefined, s)
      | None # ks \<Rightarrow> Some (Undefined, s\<lparr>stdin := ks\<rparr>)
      | Some b # ks \<Rightarrow> if b = 3 then None else Some (Num (uint b), s\<lparr>stdin := ks\<rparr>))"

definition readMemory :: "jsval \<Rightarrow> vm \<Rightarrow> (jsval \<times> vm) option" where
  "readMemory address s =
     (if address = Num MR_KBSR then
        do {
          (keyCode, s1) \<leftarrow> pollForKey s;
          let s2 = (if truthy keyCode
                    then mem_set (Num MR_KBDR) keyCode (mem_set (Num MR_KBSR) (Num 0x8000) s1)
                    else mem_set (Num MR_KBSR) (Num 0) s1);
          Some (mem_get s2 address, s2)
        }
      else Some (mem_get s address, s))"

definition writeMemory :: "jsval \<Rightarrow> jsval \<Rightarrow> vm \<Rightarrow> vm" where
  "writeMemory address v s = mem_set address v s"

section \<open>Utilities\<close>

definition signExtendSuffix :: "jsval \<Rightarrow> int \<Rightarrow> int" where
  "signExtendSuffix instr inputBitWidth =
     (let mask = js_shl 1 inputBitWidth - 1;
          suffix = js_and (toInt32 instr) mask
      in if js_and (js_shr suffix (inputBitWidth - 1)) 1 \<noteq> 0
         then (let extended = js_or suffix (js_shl 0xffff inputBitWidth)
               in js_and extended 0xffff)
         else suffix)"

definition updateCondFlag :: "nat \<Rightarrow> vm \<Rightarrow> vm" where
  "updateCondFlag register s =
     (if reg_get s register = 0 then reg_set COND (Num FL_ZRO) s
      else if js_shr (reg_get s register) 15 = 1 then reg_set COND (Num FL_NEG) s
      else reg_set COND (Num FL_POS) s)"

section \<open>Operations\<close>

definition add :: "jsval \<Rightarrow> vm \<Rightarrow> vm" where
  "add instr s =
     (let destReg = nat (js_and (js_shr (toInt32 instr) 9) 7);
          inputReg = nat (js_and (js_shr (toInt32 instr) 6) 7);
          immFlag = js_and (js_shr (toInt32 instr) 5) 1
      in updateCondFlag destReg
           (if immFlag \<noteq> 0
            then (let immValue = signExtendSuffix instr 5
                  in reg_set destReg (Num (reg_get s inputReg + immValue)) s)
            else (let secondInputReg = nat (js_and (toInt32 instr) 7)
                  in reg_set destReg (Num (reg_get s inputReg + reg_get s secondInputReg)) s)))"

definition and_op :: "jsval \<Rightarrow> vm \<Rightarrow> vm" where
  "and_op instr s =
     (let destReg = nat (js_and (js_shr (toInt32 instr) 9) 7);
          inputReg = nat (js_and (js_shr (toInt32 instr) 6) 7);
          immFlag = js_and (js_shr (toInt32 instr) 5) 1
      in updateCondFlag destReg
           (if immFlag \<noteq> 0
            then (let immValue = signExtendSuffix instr 5
                  in reg_set destReg (Num (js_and (reg_get s inputReg) immValue)) s)
            else (let secondInputReg = nat (js_and (toInt32 instr) 7)
                  in reg_set destReg
                       (Num (js_and (reg_get s inputReg) (reg_get s secondInputReg))) s)))"

definition not_op :: "jsval \<Rightarrow> vm \<Rightarrow> vm" where
  "not_op instr s =
     (let destReg = nat (js_and (js_shr (toInt32 instr) 9) 7);
          inputReg = nat (js_and (js_shr (toInt32 instr) 6) 7)
      in updateCondFlag destReg (reg_set destReg (Num (js_not (reg_get s inputReg))) s))"

definition branch :: "jsval \<Rightarrow> vm \<Rightarrow> vm" where
  "branch instr s =
     (let condMask = js_and (js_shr (toInt32 instr) 9) 7;
          condFlag = reg_get s COND;
          shouldBranch = js_and condMask condFlag
      in if shouldBranch \<noteq> 0
         then (let offset = signExtendSuffix instr 9;
                   newPC = js_and (reg_get s PC + offset) 0xffff
               in reg_set PC (Num newPC) s)
         else s)"

definition jump :: "jsval \<Rightarrow> vm \<Rightarrow> vm" where
  "jump instr s =
     (let baseRegister = nat (js_and (js_shr (toInt32 instr) 6) 7)
      in reg_set PC (Num (reg_get s baseRegister)) s)"

definition jumpToSubroutine :: "jsval \<Rightarrow> vm \<Rightarrow> vm" where
  "jumpToSubroutine instr s =
     (let s1 = reg_set R7 (Num (reg_get s PC)) s;
          offsetFlag = js_and (js_shr (toInt32 instr) 11) 1
      in if offsetFlag = 1
         then (let offset = signExtendSuffix instr 11;
                   newPC = js_and (reg_get s1 PC + offset) 0xffff
               in reg_set PC (Num newPC) s1)
         else (let baseRegister = nat (js_and (js_shr (toInt32 instr) 6) 7)
               in reg_set PC (Num (reg_get s1 baseRegister)) s1))"

definition load :: "jsval \<Rightarrow> vm \<Rightarrow> vm option" where
  "load instr s =
     (let destReg = nat (js_and (js_shr (toInt32 instr) 9) 7);
          offset = signExtendSuffix instr 9;
          addr = js_and (reg_get s PC + offset) 0xffff
      in do {
           (v, s1) \<leftarrow> readMemory (Num addr) s;
           Some (updateCondFlag destReg (reg_set destReg v s1))
         })"

definition loadIndirect :: "jsval \<Rightarrow> vm \<Rightarrow> vm option" where
  "loadIndirect instr s =
     (let destReg = nat (js_and (js_shr (toInt32 instr) 9) 7);
          loadOffset = signExtendSuffix instr 9;
          addr = js_and (reg_get s PC + loadOffset) 0xffff
      in do {
           (loadAddr, s1) \<leftarrow> readMemory (Num addr) s;
           (loadVal, s2) \<leftarrow> readMemory loadAddr s1;
           Some (updateCondFlag destReg (reg_set destReg loadVal s2))
         })"

definition loadWithOffset :: "jsval \<Rightarrow> vm \<Rightarrow> vm option" where
  "loadWithOffset instr s =
     (let destReg = nat (js_and (js_shr (toInt32 instr) 9) 7);
          baseRegister = nat (js_and (js_shr (toInt32 instr) 6) 7);
          offset = signExtendSuffix instr 6;
          addr = js_and (reg_get s baseRegister + offset) 0xffff
      in do {
           (v, s1) \<leftarrow> readMemory (Num addr) s;
           Some (updateCondFlag destReg (reg_set destReg v s1))
         })"

definition loadEffectiveAddress :: "jsval \<Rightarrow> vm \<Rightarrow> vm" where
  "loadEffectiveAddress instr s =
     (let destReg = nat (js_and (js_shr (toInt32 instr) 9) 7);
          offset = signExtendSuffix instr 9
      in updateCondFlag destReg
           (reg_set destReg (Num (js_and (reg_get s PC + offset) 0xffff)) s))"

definition store :: "jsval \<Rightarrow> vm \<Rightarrow> vm" where
  "store instr s =
     (let inputReg = nat (js_and (js_shr (toInt32 instr) 9) 7);
          offset = signExtendSuffix instr 9;
          destAddr = js_and (reg_get s PC + offset) 0xffff
      in writeMemory (Num destAddr) (Num (reg_get s inputReg)) s)"

definition storeIndirect :: "jsval \<Rightarrow> vm \<Rightarrow> vm option" where
  "storeIndirect instr s =
     (let inputReg = nat (js_and (js_shr (toInt32 instr) 9) 7);
          offset = signExtendSuffix instr 9;
          readAddr = js_and (reg_get s PC + offset) 0xffff
      in do {
           (destAddr, s1) \<leftarrow> readMemory (Num readAddr) s;
           Some (writeMemory destAddr (Num (reg_get s1 inputReg)) s1)
         })"

definition storeOffset :: "jsval \<Rightarrow> vm \<Rightarrow> vm" where
  "storeOffset instr s =
     (let regToStore = nat (js_and (js_shr (toInt32 instr) 9) 7);
          baseReg = nat (js_and (js_shr (toInt32 instr) 6) 7);
          offset = signExtendSuffix instr 6;
          destAddr = js_and (reg_get s baseReg + offset) 0xffff
      in writeMemory (Num destAddr) (Num (reg_get s regToStore)) s)"

section \<open>Trap routines\<close>

text \<open>
  \<open>getChar\<close> waits for the next \<open>'data'\<close> event, however many polling windows pass, and
  returns the first byte of its buffer. It never returns when no event is left, and the
  process exits on the byte 3 as in \<open>pollForKey\<close>.
\<close>

fun next_data :: "8 word option list \<Rightarrow> (8 word \<times> 8 word option list) option" where
  "next_data [] = None"
| "next_data (None # ks) = next_data ks"
| "next_data (Some b # ks) = (if b = 3 then None else Some (b, ks))"

definition getChar :: "vm \<Rightarrow> (jsval \<times> vm) option" where
  "getChar s =
     (case next_data (stdin s) of
        None \<Rightarrow> None
      | Some (b, ks) \<Rightarrow> Some (Num (uint b), s\<lparr>stdin := ks\<rparr>))"

definition trapGetc :: "vm \<Rightarrow> vm option" where
  "trapGetc s = do { (keyCode, s1) \<leftarrow> getChar s; Some (reg_set R0 keyCode s1) }"

definition trapIn :: "vm \<Rightarrow> vm option" where
  "trapIn s =
     do {
       (keyCode, s1) \<leftarrow> getChar (write_string ''Enter a character: '' s);
       Some (reg_set R0 keyCode (write_char keyCode s1))
     }"

definition trapOut :: "vm \<Rightarrow> vm" where
  "trapOut s = (let character = reg_get s R0 in write_char (Num character) s)"

text \<open>
  The loop of \<open>trapPuts\<close>, entered with the first word already read. Nothing bounds
  \<open>addr\<close>: past the end of \<open>memory\<close> every read is \<open>undefined\<close>, which is not \<open>0x0000\<close>, and
  the loop goes on.
\<close>

partial_function (option) trapPuts_loop :: "int \<Rightarrow> jsval \<Rightarrow> vm \<Rightarrow> vm option" where
  "trapPuts_loop addr character s =
     (if character \<noteq> Num 0
      then do {
             (character', s1) \<leftarrow> readMemory (Num (addr + 1)) (write_char character s);
             trapPuts_loop (addr + 1) character' s1
           }
      else Some s)"

definition trapPuts :: "vm \<Rightarrow> vm option" where
  "trapPuts s =
     (let addr = reg_get s R0
      in do {
           (character, s1) \<leftarrow> readMemory (Num addr) s;
           trapPuts_loop addr character s1
         })"

partial_function (option) trapPutsp_loop :: "int \<Rightarrow> jsval \<Rightarrow> vm \<Rightarrow> vm option" where
  "trapPutsp_loop addr characterPair s =
     (if characterPair \<noteq> Num 0
      then (let char1 = js_and (toInt32 characterPair) 0xff;
                s1 = write_char (Num char1) s;
                char2 = js_shr (toInt32 characterPair) 8;
                s2 = (if char2 \<noteq> 0 then write_char (Num char2) s1 else s1)
            in do {
                 (characterPair', s3) \<leftarrow> readMemory (Num (addr + 1)) s2;
                 trapPutsp_loop (addr + 1) characterPair' s3
               })
      else Some s)"

definition trapPutsp :: "vm \<Rightarrow> vm option" where
  "trapPutsp s =
     (let addr = reg_get s R0
      in do {
           (characterPair, s1) \<leftarrow> readMemory (Num addr) s;
           trapPutsp_loop addr characterPair s1
         })"

section \<open>The main loop\<close>

datatype error = RangeError

text \<open>
  \<open>programBuffer.readUInt16BE(offset)\<close> throws a \<open>RangeError\<close> unless two bytes are there.
\<close>

definition readUInt16BE :: "8 word list \<Rightarrow> nat \<Rightarrow> error + int" where
  "readUInt16BE buf offset =
     (if offset + 2 \<le> length buf
      then Inr (uint (buf ! offset) * 256 + uint (buf ! (offset + 1)))
      else Inl RangeError)"

text \<open>
  The loop that copies the image, \<open>while (offset < programBuffer.length)\<close>:
  \<open>memLocation\<close> is a Number that only grows, it is never reduced modulo \<open>2^16\<close>.
\<close>

function load_words :: "8 word list \<Rightarrow> nat \<Rightarrow> int \<Rightarrow> vm \<Rightarrow> error + vm" where
  "load_words buf offset memLocation s =
     (if offset < length buf
      then (case readUInt16BE buf offset of
              Inl e \<Rightarrow> Inl e
            | Inr word \<Rightarrow>
                load_words buf (offset + 2) (memLocation + 1)
                  (writeMemory (Num memLocation) (Num word) s))
      else Inr s)"
  by pat_completeness auto
termination
  by (relation "measure (\<lambda>(buf, offset, memLocation, s). length buf - offset)") auto

declare load_words.simps [simp del]

definition load_image :: "8 word list \<Rightarrow> vm \<Rightarrow> error + vm" where
  "load_image programBuffer s =
     (case readUInt16BE programBuffer 0 of
        Inl e \<Rightarrow> Inl e
      | Inr memLocation \<Rightarrow> load_words programBuffer 2 memLocation s)"

text \<open>
  The state when the module is loaded: both arrays zeroed, nothing written yet, the
  keyboard still to deliver \<open>keys\<close>.
\<close>

definition initial :: "8 word option list \<Rightarrow> vm" where
  "initial keys =
     \<lparr>memory = (\<lambda>_. 0), memory_undefined = Undefined, registers = (\<lambda>_. 0),
      stdout = [], stdin = keys\<rparr>"

text \<open>\<open>run\<close> up to the line \<open>let running = true\<close>: the state the loop starts in.\<close>

definition boot :: "8 word list \<Rightarrow> 8 word option list \<Rightarrow> error + vm" where
  "boot programBuffer keys =
     (case load_image programBuffer (initial keys) of
        Inl e \<Rightarrow> Inl e
      | Inr s \<Rightarrow> Inr (reg_set PC (Num 0x3000) s))"

text \<open>The inner \<open>switch (trapCode)\<close>; the result carries the new value of \<open>running\<close>.\<close>

definition trap :: "jsval \<Rightarrow> vm \<Rightarrow> (bool \<times> vm) option" where
  "trap instruction s =
     (let trapCode = js_and (toInt32 instruction) 0xFF
      in if trapCode = TRAP_GETC then map_option (Pair True) (trapGetc s)
         else if trapCode = TRAP_HALT then Some (False, s)
         else if trapCode = TRAP_IN then map_option (Pair True) (trapIn s)
         else if trapCode = TRAP_OUT then Some (True, trapOut s)
         else if trapCode = TRAP_PUTS then map_option (Pair True) (trapPuts s)
         else if trapCode = TRAP_PUTSP then map_option (Pair True) (trapPutsp s)
         else Some (True, s))"

text \<open>The \<open>switch (opcode)\<close>.\<close>

definition execute :: "int \<Rightarrow> jsval \<Rightarrow> vm \<Rightarrow> (bool \<times> vm) option" where
  "execute opcode instruction s =
     (if opcode = OP_ADD then Some (True, add instruction s)
      else if opcode = OP_AND then Some (True, and_op instruction s)
      else if opcode = OP_NOT then Some (True, not_op instruction s)
      else if opcode = OP_BR then Some (True, branch instruction s)
      else if opcode = OP_JMP then Some (True, jump instruction s)
      else if opcode = OP_JSR then Some (True, jumpToSubroutine instruction s)
      else if opcode = OP_LD then map_option (Pair True) (load instruction s)
      else if opcode = OP_LDI then map_option (Pair True) (loadIndirect instruction s)
      else if opcode = OP_LDR then map_option (Pair True) (loadWithOffset instruction s)
      else if opcode = OP_LEA then Some (True, loadEffectiveAddress instruction s)
      else if opcode = OP_ST then Some (True, store instruction s)
      else if opcode = OP_STI then map_option (Pair True) (storeIndirect instruction s)
      else if opcode = OP_STR then Some (True, storeOffset instruction s)
      else if opcode = OP_TRAP then trap instruction s
      else Some (True, s))"

text \<open>One turn of \<open>while (running)\<close>: fetch, advance the program counter, dispatch.\<close>

definition step :: "vm \<Rightarrow> (bool \<times> vm) option" where
  "step s =
     do {
       (instruction, s1) \<leftarrow> readMemory (Num (reg_get s PC)) s;
       let opcode = js_shr (toInt32 instruction) 12;
       let s2 = reg_set PC (Num (reg_get s1 PC + 1)) s1;
       execute opcode instruction s2
     }"

partial_function (option) run_loop :: "vm \<Rightarrow> vm option" where
  "run_loop s =
     do {
       (running, s1) \<leftarrow> step s;
       if running then run_loop s1 else Some s1
     }"

text \<open>\<open>run(programBuffer)\<close>: the state in which \<open>process.exit(0)\<close> is reached.\<close>

definition run :: "8 word list \<Rightarrow> 8 word option list \<Rightarrow> error + vm option" where
  "run programBuffer keys =
     (case boot programBuffer keys of
        Inl e \<Rightarrow> Inl e
      | Inr s \<Rightarrow> Inr (run_loop s))"

section \<open>The second variant of the machine, with the entry point \<open>main\<close>\<close>

text \<open>
  The source holds a second variant of the whole machine (the one \<open>test.js\<close> loads),
  with the same constants, arrays, \<open>pollForKey\<close>, \<open>readMemory\<close>, \<open>writeMemory\<close>,
  \<open>getChar\<close>, \<open>trapGetc\<close>, \<open>trapIn\<close> and image loader, word for word. The functions
  that differ follow, the clashing names with the suffix \<open>_main\<close>.
\<close>

definition signExtend :: "int \<Rightarrow> int \<Rightarrow> int" where
  "signExtend num bitCount =
     (if js_and (js_shr num (bitCount - 1)) 1 \<noteq> 0
      then js_or num (js_shl 0xFFFF bitCount)
      else num)"

text \<open>
  The second test reads \<open>register[register]\<close>, a property of the Number \<open>register\<close>
  itself and not of the array \<open>registers\<close>: it is \<open>undefined\<close> whatever the register holds.
\<close>

definition updateCondFlag_main :: "nat \<Rightarrow> vm \<Rightarrow> vm" where
  "updateCondFlag_main register s =
     (if reg_get s register = 0 then reg_set COND (Num FL_ZRO) s
      else if js_shr (toInt32 Undefined) 15 = 1 then reg_set COND (Num FL_NEG) s
      else reg_set COND (Num FL_POS) s)"

definition add_main :: "jsval \<Rightarrow> vm \<Rightarrow> vm" where
  "add_main instr s =
     (let destReg = nat (js_and (js_shr (toInt32 instr) 9) 7);
          inputReg = nat (js_and (js_shr (toInt32 instr) 6) 7);
          immFlag = js_and (js_shr (toInt32 instr) 5) 1
      in updateCondFlag_main destReg
           (if immFlag \<noteq> 0
            then (let immValue = signExtend (js_and (toInt32 instr) 31) 5
                  in reg_set destReg (Num (reg_get s inputReg + immValue)) s)
            else (let secondInputReg = nat (js_and (toInt32 instr) 7)
                  in reg_set destReg (Num (reg_get s inputReg + reg_get s secondInputReg)) s)))"

definition and_main :: "jsval \<Rightarrow> vm \<Rightarrow> vm" where
  "and_main instr s =
     (let destReg = nat (js_and (js_shr (toInt32 instr) 9) 7);
          inputReg = nat (js_and (js_shr (toInt32 instr) 6) 7);
          immFlag = js_and (js_shr (toInt32 instr) 5) 1
      in updateCondFlag_main destReg
           (if immFlag \<noteq> 0
            then (let immValue = signExtend (js_and (toInt32 instr) 31) 5
                  in reg_set destReg (Num (js_and (reg_get s inputReg) immValue)) s)
            else (let secondInputReg = nat (js_and (toInt32 instr) 7)
                  in reg_set destReg
                       (Num (js_and (reg_get s inputReg) (reg_get s secondInputReg))) s)))"

definition not_main :: "jsval \<Rightarrow> vm \<Rightarrow> vm" where
  "not_main instr s =
     (let destReg = nat (js_and (js_shr (toInt32 instr) 9) 7);
          inputReg = nat (js_and (js_shr (toInt32 instr) 6) 7)
      in updateCondFlag_main destReg (reg_set destReg (Num (js_not (reg_get s inputReg))) s))"

definition branch_main :: "jsval \<Rightarrow> vm \<Rightarrow> vm" where
  "branch_main instr s =
     (let neg = js_and (js_shr (toInt32 instr) 11) 1;
          zero = js_and (js_shr (toInt32 instr) 10) 1;
          pos = js_and (js_shr (toInt32 instr) 9) 1;
          cond = reg_get s COND;
          shouldBranch = ((neg \<noteq> 0 \<and> cond = FL_NEG)
                          \<or> (zero \<noteq> 0 \<and> cond = FL_ZRO)
                          \<or> (pos \<noteq> 0 \<and> cond = FL_POS))
      in if shouldBranch
         then (let offset = signExtend (js_and (toInt32 instr) 511) 9
               in reg_set PC (Num (reg_get s PC + offset)) s)
         else s)"

definition jump_main :: "jsval \<Rightarrow> vm \<Rightarrow> vm" where
  "jump_main instr s =
     (let baseRegister = js_and (js_shr (toInt32 instr) 6) 7
      in reg_set PC (Num baseRegister) s)"

definition jumpToSubroutine_main :: "jsval \<Rightarrow> vm \<Rightarrow> vm" where
  "jumpToSubroutine_main instr s =
     (let s1 = reg_set R7 (Num (reg_get s PC)) s;
          offsetFlag = js_and (js_shr (toInt32 instr) 11) 1
      in if offsetFlag \<noteq> 0
         then (let offset = signExtend (js_and (toInt32 instr) 2047) 11
               in reg_set PC (Num (reg_get s1 PC + offset)) s1)
         else (let baseRegister = js_and (js_shr (toInt32 instr) 6) 7
               in reg_set PC (Num baseRegister) s1))"

definition load_main :: "jsval \<Rightarrow> vm \<Rightarrow> vm option" where
  "load_main instr s =
     (let destReg = nat (js_and (js_shr (toInt32 instr) 9) 7);
          offset = signExtend (js_and (toInt32 instr) 511) 9;
          addr = reg_get s PC + offset
      in do {
           (v, s1) \<leftarrow> readMemory (Num addr) s;
           Some (updateCondFlag_main destReg (reg_set destReg v s1))
         })"

definition loadIndirect_main :: "jsval \<Rightarrow> vm \<Rightarrow> vm option" where
  "loadIndirect_main instr s =
     (let destReg = nat (js_and (js_shr (toInt32 instr) 9) 7);
          loadOffset = signExtend (js_and (toInt32 instr) 511) 9
      in do {
           (loadAddr, s1) \<leftarrow> readMemory (Num (reg_get s PC + loadOffset)) s;
           (v, s2) \<leftarrow> readMemory loadAddr s1;
           Some (updateCondFlag_main destReg (reg_set destReg v s2))
         })"

definition loadWithOffset_main :: "jsval \<Rightarrow> vm \<Rightarrow> vm option" where
  "loadWithOffset_main instr s =
     (let destReg = nat (js_and (js_shr (toInt32 instr) 9) 7);
          baseRegister = js_and (js_shr (toInt32 instr) 6) 7;
          offset = signExtend (js_and (toInt32 instr) 63) 6;
          addr = baseRegister + offset
      in do {
           (v, s1) \<leftarrow> readMemory (Num addr) s;
           Some (updateCondFlag_main destReg (reg_set destReg v s1))
         })"

definition loadEffectiveAddress_main :: "jsval \<Rightarrow> vm \<Rightarrow> vm option" where
  "loadEffectiveAddress_main instr s =
     (let destReg = nat (js_and (js_shr (toInt32 instr) 9) 7);
          offset = signExtend (js_and (toInt32 instr) 511) 9;
          addr = reg_get s PC + offset
      in do {
           (v, s1) \<leftarrow> readMemory (Num addr) s;
           Some (updateCondFlag_main destReg (reg_set destReg v s1))
         })"

definition store_main :: "jsval \<Rightarrow> vm \<Rightarrow> vm" where
  "store_main instr s =
     (let inputReg = nat (js_and (js_shr (toInt32 instr) 9) 7);
          offset = signExtend (js_and (toInt32 instr) 511) 9;
          destAddr = reg_get s PC + offset
      in writeMemory (Num destAddr) (Num (reg_get s inputReg)) s)"

definition storeIndirect_main :: "jsval \<Rightarrow> vm \<Rightarrow> vm option" where
  "storeIndirect_main instr s =
     (let inputReg = nat (js_and (js_shr (toInt32 instr) 9) 7);
          offset = signExtend (js_and (toInt32 instr) 511) 9;
          readAddr = reg_get s PC + offset
      in do {
           (destAddr, s1) \<leftarrow> readMemory (Num readAddr) s;
           Some (writeMemory destAddr (Num (reg_get s1 inputReg)) s1)
         })"

definition storeOffset_main :: "jsval \<Rightarrow> vm \<Rightarrow> vm" where
  "storeOffset_main instr s =
     (let inputReg = nat (js_and (js_shr (toInt32 instr) 9) 7);
          baseReg = nat (js_and (js_shr (toInt32 instr) 6) 7);
          offset = signExtend (js_and (toInt32 instr) 63) 6;
          destAddr = reg_get s baseReg + offset
      in writeMemory (Num destAddr) (Num (reg_get s inputReg)) s)"

text \<open>\<open>num.toString(radix)\<close> for a Number that is a natural number, and \<open>console.log\<close>.\<close>

definition digit_char :: "nat \<Rightarrow> char" where
  "digit_char d = (if d < 10 then char_of (48 + d) else char_of (87 + d))"

function toString_radix :: "nat \<Rightarrow> nat \<Rightarrow> string" where
  "toString_radix radix n =
     (if n < radix \<or> radix < 2 then [digit_char n]
      else toString_radix radix (n div radix) @ [digit_char (n mod radix)])"
  by pat_completeness auto
termination
  by (relation "measure (\<lambda>(radix, n). n)") auto

declare toString_radix.simps [simp del]

definition padStart :: "nat \<Rightarrow> char \<Rightarrow> string \<Rightarrow> string" where
  "padStart targetLength c str = replicate (targetLength - length str) c @ str"

definition console_log :: "string \<Rightarrow> vm \<Rightarrow> vm" where
  "console_log str s = write_string (str @ [CHR 0x0A]) s"

definition printAsHex :: "int \<Rightarrow> vm \<Rightarrow> vm" where
  "printAsHex num s =
     (let hex = toString_radix 16 (nat num) in console_log (padStart 4 (CHR ''0'') hex) s)"

text \<open>The string \<open>console.log\<close> prints for a value.\<close>

definition inspect :: "jsval \<Rightarrow> string" where
  "inspect v = (case v of Undefined \<Rightarrow> ''undefined'' | Num n \<Rightarrow> toString_radix 10 (nat n))"

definition trapOut_main :: "vm \<Rightarrow> vm option" where
  "trapOut_main s =
     do {
       (character, s1) \<leftarrow> readMemory (Num (reg_get s R0)) s;
       Some (write_char character s1)
     }"

text \<open>
  In the loop of this \<open>trapPuts\<close> the next word is taken without \<open>await\<close>:
  \<open>character = readMemory(addr)\<close> is a pending Promise, an object, which is truthy. So a
  loop that is entered never ends, and nothing can run in between.
\<close>

definition trapPuts_main :: "vm \<Rightarrow> vm option" where
  "trapPuts_main s =
     (let addr = reg_get s R0
      in do {
           (character, s1) \<leftarrow> readMemory (Num addr) s;
           let s2 = console_log (inspect character) s1;
           if truthy character then None else Some s2
         })"

partial_function (option) trapPutsp_main_loop :: "int \<Rightarrow> jsval \<Rightarrow> vm \<Rightarrow> vm option" where
  "trapPutsp_main_loop addr characterPair s =
     (if truthy characterPair
      then (let char1 = js_and (toInt32 characterPair) 0xFF;
                s1 = write_char (Num char1) s;
                char2 = js_shr (toInt32 characterPair) 8;
                s2 = (if char2 \<noteq> 0 then write_char (Num char2) s1 else s1)
            in do {
                 (characterPair', s3) \<leftarrow> readMemory (Num (addr + 1)) s2;
                 trapPutsp_main_loop (addr + 1) characterPair' s3
               })
      else Some s)"

definition trapPutsp_main :: "vm \<Rightarrow> vm option" where
  "trapPutsp_main s =
     (let addr = reg_get s R0
      in do {
           (characterPair, s1) \<leftarrow> readMemory (Num addr) s;
           trapPutsp_main_loop addr characterPair s1
         })"

definition trap_main :: "jsval \<Rightarrow> vm \<Rightarrow> (bool \<times> vm) option" where
  "trap_main instruction s =
     (let trapCode = js_and (toInt32 instruction) 0xFF;
          s1 = printAsHex trapCode s
      in if trapCode = TRAP_GETC then map_option (Pair True) (trapGetc s1)
         else if trapCode = TRAP_HALT then Some (False, write_string ''HALT'' s1)
         else if trapCode = TRAP_IN then map_option (Pair True) (trapIn s1)
         else if trapCode = TRAP_OUT then map_option (Pair True) (trapOut_main s1)
         else if trapCode = TRAP_PUTS then map_option (Pair True) (trapPuts_main s1)
         else if trapCode = TRAP_PUTSP then map_option (Pair True) (trapPutsp_main s1)
         else Some (True, s1))"

definition execute_main :: "int \<Rightarrow> jsval \<Rightarrow> vm \<Rightarrow> (bool \<times> vm) option" where
  "execute_main opcode instruction s =
     (if opcode = OP_ADD then Some (True, add_main instruction s)
      else if opcode = OP_AND then Some (True, and_main instruction s)
      else if opcode = OP_NOT then Some (True, not_main instruction s)
      else if opcode = OP_BR then Some (True, branch_main instruction s)
      else if opcode = OP_JMP then Some (True, jump_main instruction s)
      else if opcode = OP_JSR then Some (True, jumpToSubroutine_main instruction s)
      else if opcode = OP_LD then map_option (Pair True) (load_main instruction s)
      else if opcode = OP_LDI then map_option (Pair True) (loadIndirect_main instruction s)
      else if opcode = OP_LDR then map_option (Pair True) (loadWithOffset_main instruction s)
      else if opcode = OP_LEA then map_option (Pair True) (loadEffectiveAddress_main instruction s)
      else if opcode = OP_ST then Some (True, store_main instruction s)
      else if opcode = OP_STI then map_option (Pair True) (storeIndirect_main instruction s)
      else if opcode = OP_STR then Some (True, storeOffset_main instruction s)
      else if opcode = OP_TRAP then trap_main instruction s
      else Some (True, s))"

definition step_main :: "vm \<Rightarrow> (bool \<times> vm) option" where
  "step_main s =
     do {
       (instruction, s1) \<leftarrow> readMemory (Num (reg_get s PC)) s;
       let opcode = js_shr (toInt32 instruction) 12;
       let s2 = reg_set PC (Num (reg_get s1 PC + 1)) s1;
       execute_main opcode instruction s2
     }"

partial_function (option) main_loop :: "vm \<Rightarrow> vm option" where
  "main_loop s =
     do {
       (running, s1) \<leftarrow> step_main s;
       if running then main_loop s1 else Some s1
     }"

text \<open>\<open>main()\<close>, with the bytes of the file \<open>./2048.obj\<close> as \<open>obj\<close>.\<close>

definition main :: "8 word list \<Rightarrow> 8 word option list \<Rightarrow> error + vm option" where
  "main obj keys =
     (case boot obj keys of
        Inl e \<Rightarrow> Inl e
      | Inr s \<Rightarrow> Inr (main_loop s))"

section \<open>Example inputs\<close>

text \<open>
  Three images and the states \<open>boot\<close> makes of them: the origin 0x3000 followed by
  \<open>TRAP HALT\<close> (0xF025), by \<open>NOT R0, R0\<close> (0x903F), and by the single word 0x1234.
\<close>

definition image_halt :: "8 word list" where
  "image_halt = [0x30, 0x00, 0xF0, 0x25]"

definition state_halt :: vm where
  "state_halt = reg_set PC (Num 0x3000) (writeMemory (Num 0x3000) (Num 0xF025) (initial []))"

definition image_not :: "8 word list" where
  "image_not = [0x30, 0x00, 0x90, 0x3F]"

definition state_not :: vm where
  "state_not = reg_set PC (Num 0x3000) (writeMemory (Num 0x3000) (Num 0x903F) (initial []))"

definition image_word :: "8 word list" where
  "image_word = [0x30, 0x00, 0x12, 0x34]"

text \<open>An image with the origin 0xFFFE and the three words 1, 2, 3.\<close>

definition image_top :: "8 word list" where
  "image_top = [0xFF, 0xFE, 0x00, 0x01, 0x00, 0x02, 0x00, 0x03]"

section \<open>The bitwise operators on integers\<close>

lemma sint32: "sint (word_of_int a :: 32 word) = signed_take_bit 31 a"
  by (simp add: sint_sbintrunc')

lemma js_and_eq: "js_and a b = signed_take_bit 31 (a AND b)"
  by (simp add: js_and_def sint32 flip: of_int_and_eq)

lemma js_or_eq: "js_or a b = signed_take_bit 31 (a OR b)"
  by (simp add: js_or_def sint32 flip: of_int_or_eq)

lemma js_not_eq: "js_not a = signed_take_bit 31 (NOT a)"
  by (simp add: js_not_def sint32 flip: of_int_not_eq)

lemma js_shl_eq: "js_shl a k = signed_take_bit 31 (push_bit (nat (k mod 32)) a)"
  by (simp add: js_shl_def sint32 push_bit_of_int)

lemma js_shr_eq: "js_shr a k = drop_bit (nat (k mod 32)) (signed_take_bit 31 a)"
  by (simp add: js_shr_def sint32 sint_signed_drop_bit_eq)

lemma stb31_small: "0 \<le> a \<Longrightarrow> a < 2147483648 \<Longrightarrow> signed_take_bit 31 a = (a::int)"
  by (simp add: signed_take_bit_int_eq_self)

lemma js_and_bound: "0 \<le> b \<Longrightarrow> b < 2147483648 \<Longrightarrow> 0 \<le> js_and a b \<and> js_and a b \<le> b"
proof -
  assume b: "0 \<le> b" "b < 2147483648"
  have 1: "0 \<le> a AND b" using b by (simp add: and_nonnegative_int_iff)
  have 2: "a AND b \<le> b" using b by (simp add: AND_upper2)
  show ?thesis using 1 2 b by (simp add: js_and_eq stb31_small)
qed

lemma toInt32_uint: "toInt32 (Num (uint (v::16 word))) = uint v"
proof -
  have "uint v < 65536" using uint_bounded[of v] by simp
  then show ?thesis by (simp only: toInt32_def jsval.case sint32) (simp add: stb31_small)
qed

lemma bit_js_and: "bit (js_and a b) n \<longleftrightarrow> bit a (min 31 n) \<and> bit b (min 31 n)"
  by (simp add: js_and_eq bit_signed_take_bit_iff bit_and_iff)

lemma bit_js_or: "bit (js_or a b) n \<longleftrightarrow> bit a (min 31 n) \<or> bit b (min 31 n)"
  by (simp add: js_or_eq bit_signed_take_bit_iff bit_or_iff)

lemma bit_js_shl: "bit (js_shl a k) n \<longleftrightarrow> nat (k mod 32) \<le> min 31 n \<and> bit a (min 31 n - nat (k mod 32))"
  by (simp add: js_shl_eq bit_signed_take_bit_iff bit_push_bit_iff)

lemma bit_js_shr: "bit (js_shr a k) n \<longleftrightarrow> bit a (min 31 (nat (k mod 32) + n))"
  by (simp add: js_shr_eq bit_signed_take_bit_iff bit_drop_bit_eq)

lemma js_and_1: "js_and a 1 \<noteq> 0 \<longleftrightarrow> bit a 0"
proof -
  have "js_and a 1 = a mod 2"
    by (simp add: js_and_eq and_one_eq stb31_small)
  then show ?thesis by (simp add: bit_0 odd_iff_mod_2_eq_one)
qed

lemma bit_65535_int: "bit (65535::int) n \<longleftrightarrow> n < 16"
proof -
  have "(65535::int) = mask 16" by (simp add: mask_eq_exp_minus_1)
  then show ?thesis by (simp only: bit_mask_iff) simp
qed

lemma bit_65535_word: "bit (65535::16 word) n \<longleftrightarrow> n < 16"
proof -
  have "(65535::16 word) = mask 16" by (simp add: mask_eq_exp_minus_1)
  then show ?thesis by (simp only: bit_mask_iff) simp
qed

lemma signExtendSuffix_word:
  fixes v :: "16 word" and w :: nat
  assumes w: "1 \<le> w" "w \<le> 15"
  shows "signExtendSuffix (Num (uint v)) (int w) =
     uint (if bit v (w - 1) then take_bit w v OR push_bit w (0xFFFF::16 word) else take_bit w v)"
proof -
  have wmod: "nat (int w mod 32) = w" "nat ((int w - 1) mod 32) = w - 1"
    using w by simp_all
  have wm1: "nat (int w - 1) = w - Suc 0"
    by simp
  have p2: "(2::int) ^ w \<le> 2 ^ 15"
    using w by (intro power_increasing) simp_all
  have shl1: "js_shl 1 (int w) - 1 = mask w"
    using p2 by (simp add: js_shl_eq wmod push_bit_eq_mult stb31_small mask_eq_exp_minus_1)
  have test: "js_and (js_shr (js_and (uint v) (mask w)) (int w - 1)) 1 \<noteq> 0 \<longleftrightarrow> bit v (w - 1)"
    using w by (auto simp add: js_and_1 bit_js_shr bit_js_and wmod wm1 bit_mask_iff bit_uint_iff)
  have neg: "js_and (js_or (js_and (uint v) (mask w)) (js_shl 65535 (int w))) 65535
      = uint (take_bit w v OR push_bit w (0xFFFF::16 word))"
    apply (rule bit_eqI)
    using w apply (auto simp add: bit_js_and bit_js_or bit_js_shl wmod bit_mask_iff bit_uint_iff bit_65535_int bit_65535_word bit_simps)
    done
  have pos: "js_and (uint v) (mask w) = uint (take_bit w v)"
    apply (rule bit_eqI)
    using w apply (auto simp add: bit_js_and bit_js_or bit_js_shl wmod bit_mask_iff bit_uint_iff bit_65535_int bit_65535_word bit_simps)
    done
  show ?thesis 
    unfolding signExtendSuffix_def Let_def toInt32_uint shl1 
    using test neg pos by simp
qed

subsection \<open>Projections of the state after the elementary updates\<close>

lemma reg_set_simps [simp]:
  "registers (reg_set i v s) = (if i < REGISTERS_LENGTH then (registers s)(i := toUint16 v) else registers s)"
  "memory (reg_set i v s) = memory s"
  "memory_undefined (reg_set i v s) = memory_undefined s"
  "stdout (reg_set i v s) = stdout s"
  "stdin (reg_set i v s) = stdin s"
  by (simp_all add: reg_set_def)

lemma mem_set_simps [simp]:
  "registers (mem_set a v s) = registers s"
  "stdout (mem_set a v s) = stdout s"
  "stdin (mem_set a v s) = stdin s"
  by (simp_all add: mem_set_def split: jsval.split)

lemma write_char_simps [simp]:
  "registers (write_char c s) = registers s"
  "memory (write_char c s) = memory s"
  "memory_undefined (write_char c s) = memory_undefined s"
  "stdout (write_char c s) = stdout s @ [toUint16 c]"
  "stdin (write_char c s) = stdin s"
  by (simp_all add: write_char_def)

lemma write_string_simps [simp]:
  "registers (write_string str s) = registers s"
  "memory (write_string str s) = memory s"
  "memory_undefined (write_string str s) = memory_undefined s"
  "stdin (write_string str s) = stdin s"
  by (simp_all add: write_string_def)

lemma writeMemory_simps [simp]:
  "registers (writeMemory a v s) = registers s"
  "stdout (writeMemory a v s) = stdout s"
  "stdin (writeMemory a v s) = stdin s"
  by (simp_all add: writeMemory_def)

lemma memory_mem_set_Num:
  "memory (mem_set (Num i) v s) =
     (if 0 \<le> i \<and> i < 65535 then (memory s)(nat i := toUint16 v) else memory s)"
  by (simp add: mem_set_def MEMORY_LENGTH_def)

lemma memory_undefined_mem_set_Num [simp]:
  "memory_undefined (mem_set (Num i) v s) = memory_undefined s"
  by (simp add: mem_set_def)

lemma mem_get_Num:
  "mem_get s (Num i) = (if 0 \<le> i \<and> i < 65535 then Num (uint (memory s (nat i))) else Undefined)"
  by (simp add: mem_get_def MEMORY_LENGTH_def)

lemma readMemory_plain:
  "a \<noteq> Num MR_KBSR \<Longrightarrow> readMemory a s = Some (mem_get s a, s)"
  by (simp add: readMemory_def)

subsection \<open>What the handlers do to the registers\<close>

lemma field3_bound: "nat (js_and a 7) < 8"
  using js_and_bound[of 7 a] by auto

lemma js_shr_15: "js_shr (uint (x::16 word)) 15 = 1 \<longleftrightarrow> bit x 15"
proof -
  have b: "0 \<le> uint x" "uint x < 65536" using uint_bounded[of x] by simp_all
  then have e: "js_shr (uint x) 15 = drop_bit 15 (uint x)"
    by (simp add: js_shr_eq stb31_small)
  have "drop_bit 15 (uint x) = 1 \<longleftrightarrow> bit x 15"
  proof
    assume "drop_bit 15 (uint x) = 1"
    then have "bit (drop_bit 15 (uint x)) 0" by simp
    then show "bit x 15" by (simp add: bit_drop_bit_eq bit_uint_iff)
  next
    assume b15: "bit x 15"
    have "bit (drop_bit 15 (uint x)) n \<longleftrightarrow> bit (1::int) n" for n
    proof (cases n)
      case 0
      then show ?thesis using b15 by (simp add: bit_drop_bit_eq bit_uint_iff)
    next
      case (Suc m)
      have "\<not> bit x (15 + Suc m)"
        using bit_imp_le_length[of x "15 + Suc m"] by auto
      then show ?thesis using Suc by (simp add: bit_drop_bit_eq bit_uint_iff bit_1_iff)
    qed
    then show "drop_bit 15 (uint x) = 1" by (rule bit_eqI)
  qed
  then show ?thesis using e by simp
qed

lemma updateCondFlag_registers:
  "registers (updateCondFlag r s) =
     (registers s)(COND := (if registers s r = 0 then 2 else if bit (registers s r) 15 then 4 else 1))"
  by (simp add: updateCondFlag_def reg_get_def js_shr_15 uint_0_iff COND_def REGISTERS_LENGTH_def
        toUint16_def FL_ZRO_def FL_NEG_def FL_POS_def)

lemma updateCondFlag_frame [simp]:
  "memory (updateCondFlag r s) = memory s"
  "memory_undefined (updateCondFlag r s) = memory_undefined s"
  "stdout (updateCondFlag r s) = stdout s"
  "stdin (updateCondFlag r s) = stdin s"
  by (simp_all add: updateCondFlag_def)

lemma flag_after_write:
  assumes "dr < 8"
  shows "registers (updateCondFlag dr (reg_set dr v s)) COND =
           (let r = registers (updateCondFlag dr (reg_set dr v s)) dr
            in if r = 0 then 2 else if bit r 15 then 4 else 1)"
  using assms by (simp add: updateCondFlag_registers COND_def REGISTERS_LENGTH_def Let_def)

lemma pollForKey_registers: "pollForKey s = Some (k, s') \<Longrightarrow> registers s' = registers s"
  by (auto simp: pollForKey_def split: list.splits option.splits if_splits)

lemma readMemory_registers: "readMemory a s = Some (v, s') \<Longrightarrow> registers s' = registers s"
  by (auto simp: readMemory_def Let_def split: if_splits Option.bind_splits dest: pollForKey_registers)

lemma getChar_registers: "getChar s = Some (v, s') \<Longrightarrow> registers s' = registers s"
  by (auto simp: getChar_def split: option.splits)

lemma trapPuts_loop_registers:
  assumes "trapPuts_loop addr c s = Some s'"
  shows "registers s' = registers s"
proof (rule trapPuts_loop.raw_induct
         [where P = "\<lambda>addr c s s'. registers s' = registers s", OF _ assms])
  fix f addr c s s'
  assume IH: "\<And>addr c s s'. f addr c s = Some s' \<Longrightarrow> registers s' = registers s"
    and body: "(if c \<noteq> Num 0
      then do {
             (character', s1) \<leftarrow> readMemory (Num (addr + 1)) (write_char c s);
             f (addr + 1) character' s1
           }
      else Some s) = Some s'"
  show "registers s' = registers s"
    using body
    by (auto split: if_splits Option.bind_splits dest!: readMemory_registers IH)
qed

lemma trapPutsp_loop_registers:
  assumes "trapPutsp_loop addr c s = Some s'"
  shows "registers s' = registers s"
proof (rule trapPutsp_loop.raw_induct
         [where P = "\<lambda>addr c s s'. registers s' = registers s", OF _ assms])
  fix f addr c s s'
  assume IH: "\<And>addr c s s'. f addr c s = Some s' \<Longrightarrow> registers s' = registers s"
    and body: "(if c \<noteq> Num 0
      then (let char1 = js_and (toInt32 c) 0xff;
                s1 = write_char (Num char1) s;
                char2 = js_shr (toInt32 c) 8;
                s2 = (if char2 \<noteq> 0 then write_char (Num char2) s1 else s1)
            in do {
                 (characterPair', s3) \<leftarrow> readMemory (Num (addr + 1)) s2;
                 f (addr + 1) characterPair' s3
               })
      else Some s) = Some s'"
  show "registers s' = registers s"
    using body
    by (auto simp: Let_def split: if_splits Option.bind_splits dest!: readMemory_registers IH)
qed

lemma trapPuts_registers: "trapPuts s = Some s' \<Longrightarrow> registers s' = registers s"
  by (auto simp: trapPuts_def Let_def split: Option.bind_splits
      dest!: readMemory_registers trapPuts_loop_registers)

lemma trapPutsp_registers: "trapPutsp s = Some s' \<Longrightarrow> registers s' = registers s"
  by (auto simp: trapPutsp_def Let_def split: Option.bind_splits
      dest!: readMemory_registers trapPutsp_loop_registers)

lemma trapGetc_registers:
  "trapGetc s = Some s' \<Longrightarrow> i \<noteq> R0 \<Longrightarrow> registers s' i = registers s i"
  by (auto simp: trapGetc_def split: Option.bind_splits dest!: getChar_registers)

lemma trapIn_registers:
  "trapIn s = Some s' \<Longrightarrow> i \<noteq> R0 \<Longrightarrow> registers s' i = registers s i"
  by (auto simp: trapIn_def split: Option.bind_splits dest!: getChar_registers)

lemma trapOut_registers: "registers (trapOut s) = registers s"
  by (simp add: trapOut_def)

lemma trap_registers:
  assumes "trap instr s = Some (running, s')" "i \<noteq> R0"
  shows "registers s' i = registers s i"
  using assms
  by (auto simp: trap_def Let_def trapOut_registers split: if_splits
      dest: trapGetc_registers trapIn_registers trapPuts_registers trapPutsp_registers)

lemma branch_registers: "i \<noteq> PC \<Longrightarrow> registers (branch instr s) i = registers s i"
  by (simp add: branch_def Let_def)

lemma jump_registers: "i \<noteq> PC \<Longrightarrow> registers (jump instr s) i = registers s i"
  by (simp add: jump_def Let_def)

lemma jumpToSubroutine_registers:
  "i \<noteq> PC \<Longrightarrow> i \<noteq> R7 \<Longrightarrow> registers (jumpToSubroutine instr s) i = registers s i"
  by (simp add: jumpToSubroutine_def Let_def)

lemma store_registers: "registers (store instr s) = registers s"
  by (simp add: store_def Let_def)

lemma storeOffset_registers: "registers (storeOffset instr s) = registers s"
  by (simp add: storeOffset_def Let_def)

lemma storeIndirect_registers: "storeIndirect instr s = Some s' \<Longrightarrow> registers s' = registers s"
  by (auto simp: storeIndirect_def Let_def split: Option.bind_splits dest!: readMemory_registers)

lemma cond_constants: "COND \<noteq> PC" "COND \<noteq> R7" "COND \<noteq> R0" "R7 \<noteq> R0" "PC \<noteq> R0" "R7 \<noteq> PC"
  by (simp_all add: COND_def PC_def R7_def R0_def)

lemmas opcode_defs = OP_BR_def OP_ADD_def OP_LD_def OP_ST_def OP_JSR_def OP_AND_def OP_LDR_def
  OP_STR_def OP_RTI_def OP_NOT_def OP_LDI_def OP_STI_def OP_JMP_def OP_RES_def OP_LEA_def
  OP_TRAP_def

lemma execute_keeps_COND:
  assumes op: "opcode \<in> {OP_BR, OP_JMP, OP_JSR, OP_ST, OP_STI, OP_STR, OP_TRAP}"
    and ex: "execute opcode instr s = Some (running, s')"
  shows "registers s' COND = registers s COND"
proof -
  from op consider "opcode = OP_BR" | "opcode = OP_JMP" | "opcode = OP_JSR" | "opcode = OP_ST"
    | "opcode = OP_STI" | "opcode = OP_STR" | "opcode = OP_TRAP"
    by auto
  then show ?thesis
  proof cases
    case 1
    with ex have "s' = branch instr s" by (simp add: execute_def opcode_defs)
    then show ?thesis by (simp add: branch_registers cond_constants)
  next
    case 2
    with ex have "s' = jump instr s" by (simp add: execute_def opcode_defs)
    then show ?thesis by (simp add: jump_registers cond_constants)
  next
    case 3
    with ex have "s' = jumpToSubroutine instr s" by (simp add: execute_def opcode_defs)
    then show ?thesis by (simp add: jumpToSubroutine_registers cond_constants)
  next
    case 4
    with ex have "s' = store instr s" by (simp add: execute_def opcode_defs)
    then show ?thesis by (simp add: store_registers)
  next
    case 5
    with ex have "storeIndirect instr s = Some s'" by (auto simp: execute_def opcode_defs)
    then show ?thesis by (simp add: storeIndirect_registers)
  next
    case 6
    with ex have "s' = storeOffset instr s" by (simp add: execute_def opcode_defs)
    then show ?thesis by (simp add: storeOffset_registers)
  next
    case 7
    with ex have "trap instr s = Some (running, s')" by (simp add: execute_def opcode_defs)
    then show ?thesis by (rule trap_registers) (simp add: cond_constants)
  qed
qed

lemma flag_shape:
  assumes "s' = updateCondFlag dr (reg_set dr v s1)" "dr < 8"
  shows "registers s' COND = (let r = registers s' dr in if r = 0 then 2 else if bit r 15 then 4 else 1)"
  using flag_after_write[OF assms(2), of v s1] assms(1) by simp

lemma add_shape:
  "\<exists>v. add instr s = updateCondFlag (nat (js_and (js_shr (toInt32 instr) 9) 7))
                        (reg_set (nat (js_and (js_shr (toInt32 instr) 9) 7)) v s)"
  by (cases "js_and (js_shr (toInt32 instr) 5) 1 = 0") (auto simp: add_def Let_def)

lemma and_shape:
  "\<exists>v. and_op instr s = updateCondFlag (nat (js_and (js_shr (toInt32 instr) 9) 7))
                        (reg_set (nat (js_and (js_shr (toInt32 instr) 9) 7)) v s)"
  by (cases "js_and (js_shr (toInt32 instr) 5) 1 = 0") (auto simp: and_op_def Let_def)

lemma not_shape:
  "\<exists>v. not_op instr s = updateCondFlag (nat (js_and (js_shr (toInt32 instr) 9) 7))
                        (reg_set (nat (js_and (js_shr (toInt32 instr) 9) 7)) v s)"
  by (auto simp: not_op_def Let_def)

lemma lea_shape:
  "\<exists>v. loadEffectiveAddress instr s = updateCondFlag (nat (js_and (js_shr (toInt32 instr) 9) 7))
                        (reg_set (nat (js_and (js_shr (toInt32 instr) 9) 7)) v s)"
  by (auto simp: loadEffectiveAddress_def Let_def)

lemma load_shape:
  "load instr s = Some s' \<Longrightarrow>
   \<exists>v s1. s' = updateCondFlag (nat (js_and (js_shr (toInt32 instr) 9) 7))
                        (reg_set (nat (js_and (js_shr (toInt32 instr) 9) 7)) v s1)"
  by (fastforce simp: load_def Let_def split: Option.bind_splits)

lemma loadIndirect_shape:
  "loadIndirect instr s = Some s' \<Longrightarrow>
   \<exists>v s1. s' = updateCondFlag (nat (js_and (js_shr (toInt32 instr) 9) 7))
                        (reg_set (nat (js_and (js_shr (toInt32 instr) 9) 7)) v s1)"
  by (fastforce simp: loadIndirect_def Let_def split: Option.bind_splits)

lemma loadWithOffset_shape:
  "loadWithOffset instr s = Some s' \<Longrightarrow>
   \<exists>v s1. s' = updateCondFlag (nat (js_and (js_shr (toInt32 instr) 9) 7))
                        (reg_set (nat (js_and (js_shr (toInt32 instr) 9) 7)) v s1)"
  by (fastforce simp: loadWithOffset_def Let_def split: Option.bind_splits)

lemma execute_sets_COND:
  assumes op: "opcode \<in> {OP_ADD, OP_AND, OP_NOT, OP_LD, OP_LDI, OP_LDR, OP_LEA}"
    and ex: "execute opcode instr s = Some (running, s')"
  shows "registers s' COND =
           (let r = registers s' (nat (js_and (js_shr (toInt32 instr) 9) 7))
            in if r = 0 then 2 else if bit r 15 then 4 else 1)"
proof -
  have "\<exists>v s1. s' = updateCondFlag (nat (js_and (js_shr (toInt32 instr) 9) 7))
                        (reg_set (nat (js_and (js_shr (toInt32 instr) 9) 7)) v s1)"
  proof -
    from op consider "opcode = OP_ADD" | "opcode = OP_AND" | "opcode = OP_NOT" | "opcode = OP_LD"
      | "opcode = OP_LDI" | "opcode = OP_LDR" | "opcode = OP_LEA"
      by auto
    then show ?thesis
    proof cases
      case 1
      with ex have "s' = add instr s" by (simp add: execute_def opcode_defs)
      then show ?thesis using add_shape[of instr s] by auto
    next
      case 2
      with ex have "s' = and_op instr s" by (simp add: execute_def opcode_defs)
      then show ?thesis using and_shape[of instr s] by auto
    next
      case 3
      with ex have "s' = not_op instr s" by (simp add: execute_def opcode_defs)
      then show ?thesis using not_shape[of instr s] by auto
    next
      case 4
      with ex have "load instr s = Some s'" by (auto simp: execute_def opcode_defs)
      then show ?thesis by (rule load_shape)
    next
      case 5
      with ex have "loadIndirect instr s = Some s'" by (auto simp: execute_def opcode_defs)
      then show ?thesis by (rule loadIndirect_shape)
    next
      case 6
      with ex have "loadWithOffset instr s = Some s'" by (auto simp: execute_def opcode_defs)
      then show ?thesis by (rule loadWithOffset_shape)
    next
      case 7
      with ex have "s' = loadEffectiveAddress instr s" by (simp add: execute_def opcode_defs)
      then show ?thesis using lea_shape[of instr s] by auto
    qed
  qed
  then obtain v s1 where "s' = updateCondFlag (nat (js_and (js_shr (toInt32 instr) 9) 7))
                        (reg_set (nat (js_and (js_shr (toInt32 instr) 9) 7)) v s1)"
    by blast
  then show ?thesis by (rule flag_shape) (rule field3_bound)
qed

lemma execute_other_keeps_COND:
  assumes op: "opcode \<notin> {OP_ADD, OP_AND, OP_NOT, OP_LD, OP_LDI, OP_LDR, OP_LEA}"
    and ex: "execute opcode instr s = Some (running, s')"
  shows "registers s' COND = registers s COND"
proof (cases "opcode \<in> {OP_BR, OP_JMP, OP_JSR, OP_ST, OP_STI, OP_STR, OP_TRAP}")
  case True
  then show ?thesis using ex by (rule execute_keeps_COND)
next
  case False
  with op ex have "s' = s" by (simp add: execute_def)
  then show ?thesis by simp
qed

subsection \<open>The trap routines of the second variant\<close>

lemma console_log_registers [simp]: "registers (console_log str s) = registers s"
  by (simp add: console_log_def)

lemma printAsHex_registers [simp]: "registers (printAsHex n s) = registers s"
  by (simp add: printAsHex_def Let_def)

lemma trapOut_main_registers: "trapOut_main s = Some s' \<Longrightarrow> registers s' = registers s"
  by (auto simp: trapOut_main_def split: Option.bind_splits dest!: readMemory_registers)

lemma trapPuts_main_registers: "trapPuts_main s = Some s' \<Longrightarrow> registers s' = registers s"
  by (auto simp: trapPuts_main_def Let_def split: Option.bind_splits if_splits
      dest!: readMemory_registers)

lemma trapPutsp_main_loop_registers:
  assumes "trapPutsp_main_loop addr c s = Some s'"
  shows "registers s' = registers s"
proof (rule trapPutsp_main_loop.raw_induct
         [where P = "\<lambda>addr c s s'. registers s' = registers s", OF _ assms])
  fix f addr c s s'
  assume IH: "\<And>addr c s s'. f addr c s = Some s' \<Longrightarrow> registers s' = registers s"
    and body: "(if truthy c
      then (let char1 = js_and (toInt32 c) 0xFF;
                s1 = write_char (Num char1) s;
                char2 = js_shr (toInt32 c) 8;
                s2 = (if char2 \<noteq> 0 then write_char (Num char2) s1 else s1)
            in do {
                 (characterPair', s3) \<leftarrow> readMemory (Num (addr + 1)) s2;
                 f (addr + 1) characterPair' s3
               })
      else Some s) = Some s'"
  show "registers s' = registers s"
    using body
    by (auto simp: Let_def split: if_splits Option.bind_splits dest!: readMemory_registers IH)
qed

lemma trapPutsp_main_registers: "trapPutsp_main s = Some s' \<Longrightarrow> registers s' = registers s"
  by (auto simp: trapPutsp_main_def Let_def split: Option.bind_splits
      dest!: readMemory_registers trapPutsp_main_loop_registers)

lemma trap_main_registers:
  assumes "trap_main instr s = Some (running, s')" "i \<noteq> R0"
  shows "registers s' i = registers s i"
proof -
  let ?s1 = "printAsHex (js_and (toInt32 instr) 0xFF) s"
  have r1: "registers ?s1 = registers s" by simp
  from assms(1) consider
      "trapGetc ?s1 = Some s'" | "s' = write_string ''HALT'' ?s1" | "trapIn ?s1 = Some s'"
    | "trapOut_main ?s1 = Some s'" | "trapPuts_main ?s1 = Some s'" | "trapPutsp_main ?s1 = Some s'"
    | "s' = ?s1"
    by (auto simp: trap_main_def Let_def split: if_splits)
  then show ?thesis
  proof cases
    case 1 then show ?thesis using trapGetc_registers[OF 1 assms(2)] r1 by simp
  next
    case 2 then show ?thesis by simp
  next
    case 3 then show ?thesis using trapIn_registers[OF 3 assms(2)] r1 by simp
  next
    case 4 then show ?thesis using trapOut_main_registers[OF 4] r1 by simp
  next
    case 5 then show ?thesis using trapPuts_main_registers[OF 5] r1 by simp
  next
    case 6 then show ?thesis using trapPutsp_main_registers[OF 6] r1 by simp
  next
    case 7 then show ?thesis by simp
  qed
qed

subsection \<open>One turn of the loop\<close>

lemma step_execute:
  assumes "readMemory (Num (reg_get s PC)) s = Some (instr, s1)"
  shows "step s = execute (js_shr (toInt32 instr) 12) instr (reg_set PC (Num (reg_get s1 PC + 1)) s1)"
  using assms by (simp add: step_def Let_def)

lemma step_main_execute:
  assumes "readMemory (Num (reg_get s PC)) s = Some (instr, s1)"
  shows "step_main s =
           execute_main (js_shr (toInt32 instr) 12) instr (reg_set PC (Num (reg_get s1 PC + 1)) s1)"
  using assms by (simp add: step_main_def Let_def)

lemma fetch_registers:
  assumes "readMemory (Num (reg_get s PC)) s = Some (instr, s1)"
  shows "registers (reg_set PC (Num (reg_get s1 PC + 1)) s1) = (registers s)(PC := registers s PC + 1)"
  using readMemory_registers[OF assms]
  by (simp add: reg_get_def toUint16_def PC_def REGISTERS_LENGTH_def)

lemma fetch_registers_other:
  assumes "readMemory (Num (reg_get s PC)) s = Some (instr, s1)" "i \<noteq> PC"
  shows "registers (reg_set PC (Num (reg_get s1 PC + 1)) s1) i = registers s i"
  by (simp only: fetch_registers[OF assms(1)]) (simp add: assms(2))

lemma execute_TRAP: "execute OP_TRAP instr s = trap instr s"
  by (simp add: execute_def opcode_defs)

lemma execute_main_TRAP: "execute_main OP_TRAP instr s = trap_main instr s"
  by (simp add: execute_main_def opcode_defs)

text \<open>
  The handlers that neither read memory nor wait for the keyboard always return: with
  these opcodes a turn of the loop ends whenever its fetch does, and the loop goes on.
\<close>

lemma step_returns:
  assumes "readMemory (Num (reg_get s PC)) s = Some (instr, s1)"
    and "js_shr (toInt32 instr) 12 \<notin> {OP_LD, OP_LDI, OP_LDR, OP_STI, OP_TRAP}"
  shows "\<exists>s'. step s = Some (True, s')"
  using assms(2) by (simp add: step_execute[OF assms(1)] execute_def)

subsection \<open>The example states\<close>

lemma boot_image_halt: "boot image_halt [] = Inr state_halt"
  by (simp add: boot_def load_image_def readUInt16BE_def load_words.simps image_halt_def
        state_halt_def)

lemma boot_image_not: "boot image_not [] = Inr state_not"
  by (simp add: boot_def load_image_def readUInt16BE_def load_words.simps image_not_def
        state_not_def)

lemma fetch_state_halt:
  "readMemory (Num (reg_get state_halt PC)) state_halt = Some (Num 0xF025, state_halt)"
  by (simp add: state_halt_def readMemory_def reg_get_def mem_get_Num memory_mem_set_Num
        writeMemory_def initial_def toUint16_def PC_def REGISTERS_LENGTH_def MR_KBSR_def)

lemma opcode_0xF025: "js_shr (toInt32 (Num 0xF025)) 12 = OP_TRAP"
  by (simp add: js_shr_def toInt32_def OP_TRAP_def)

lemma trapCode_0xF025: "js_and (toInt32 (Num 0xF025)) 0xFF = TRAP_HALT"
  by (simp add: js_and_def toInt32_def TRAP_HALT_def)

lemma PC_state_halt: "reg_get state_halt PC + 1 = 0x3001"
  by (simp add: state_halt_def reg_get_def toUint16_def PC_def REGISTERS_LENGTH_def)

lemma step_state_halt: "step state_halt = Some (False, reg_set PC (Num 0x3001) state_halt)"
  by (simp add: step_execute[OF fetch_state_halt] opcode_0xF025 execute_TRAP trap_def
        trapCode_0xF025 PC_state_halt Let_def TRAP_HALT_def TRAP_GETC_def)

lemma toString_radix_0x25: "padStart 4 (CHR ''0'') (toString_radix 16 37) = ''0025''"
  by code_simp

lemma step_main_state_halt:
  "step_main state_halt =
     Some (False, write_string ''HALT'' (console_log ''0025'' (reg_set PC (Num 0x3001) state_halt)))"
  by (simp add: step_main_execute[OF fetch_state_halt] opcode_0xF025 execute_main_TRAP
        trap_main_def trapCode_0xF025 PC_state_halt Let_def TRAP_HALT_def TRAP_GETC_def
        printAsHex_def toString_radix_0x25)

section \<open>C1: the size of the memory\<close>

text \<open>
  Claim C1 says that every address from 0x0000 to 0xFFFF is a memory cell. The array has
  0xffff cells, the indices 0x0000 to 0xFFFE, although its comment counts \<open>2**16\<close>
  locations. At the address 0xFFFF a write changes nothing at all and a read returns
  \<open>undefined\<close>, whatever was written.
\<close>

theorem memory_has_no_cell_0xFFFF:
  "writeMemory (Num 0xFFFF) v s = s \<and> readMemory (Num 0xFFFF) (writeMemory (Num 0xFFFF) v s) = Some (Undefined, s)"
  by (simp add: writeMemory_def mem_set_def readMemory_def mem_get_def MEMORY_LENGTH_def MR_KBSR_def)

text \<open>Below 0xFFFF every address is a cell that keeps the value written, modulo \<open>2^16\<close>.\<close>

lemma uint_toUint16_Num: "uint (toUint16 (Num n)) = n mod 65536"
  by (simp add: toUint16_def uint_word_of_int)

lemma memory_cell_below_0xFFFF:
  assumes "0 \<le> a" "a < 0xFFFF" "a \<noteq> MR_KBSR"
  shows "readMemory (Num a) s = Some (Num (uint (memory s (nat a))), s)"
    and "readMemory (Num a) (writeMemory (Num a) (Num v) s) =
           Some (Num (v mod 2 ^ 16), writeMemory (Num a) (Num v) s)"
  using assms
  by (simp_all add: readMemory_def writeMemory_def mem_get_Num memory_mem_set_Num uint_toUint16_Num)

section \<open>C2: the condition flags\<close>

text \<open>
  In \<open>run\<close> the rule of the claim holds for one whole turn of the loop: if the word
  fetched has one of the opcodes ADD, AND, NOT, LD, LDI, LDR, LEA, then COND ends as Z (2)
  when the destination register holds 0, as N (4) when its bit 15 is set and as P (1)
  otherwise; with any other opcode COND is as before.
\<close>

lemma run_flag_rule:
  assumes fetch: "readMemory (Num (reg_get s PC)) s = Some (instr, s1)"
    and st: "step s = Some (running, s')"
  shows "(js_shr (toInt32 instr) 12 \<in> {OP_ADD, OP_AND, OP_NOT, OP_LD, OP_LDI, OP_LDR, OP_LEA} \<longrightarrow>
            registers s' COND =
              (let r = registers s' (nat (js_and (js_shr (toInt32 instr) 9) 7))
               in if r = 0 then 2 else if bit r 15 then 4 else 1))
       \<and> (js_shr (toInt32 instr) 12 \<notin> {OP_ADD, OP_AND, OP_NOT, OP_LD, OP_LDI, OP_LDR, OP_LEA} \<longrightarrow>
            registers s' COND = registers s COND)"
proof -
  let ?s2 = "reg_set PC (Num (reg_get s1 PC + 1)) s1"
  have ex: "execute (js_shr (toInt32 instr) 12) instr ?s2 = Some (running, s')"
    using st by (simp only: step_execute[OF fetch])
  have c: "registers ?s2 COND = registers s COND"
    by (rule fetch_registers_other[OF fetch]) (simp add: cond_constants)
  show ?thesis
    using execute_sets_COND[OF _ ex] execute_other_keeps_COND[OF _ ex] c by simp
qed

lemma fetch_state_not:
  "readMemory (Num (reg_get state_not PC)) state_not = Some (Num 0x903F, state_not)"
  by (simp add: state_not_def readMemory_def reg_get_def mem_get_Num memory_mem_set_Num
        writeMemory_def initial_def toUint16_def PC_def REGISTERS_LENGTH_def MR_KBSR_def)

lemma opcode_0x903F: "js_shr (toInt32 (Num 0x903F)) 12 = OP_NOT"
  by (simp add: js_shr_def toInt32_def OP_NOT_def)

lemma fields_0x903F:
  "js_and (js_shr (toInt32 (Num 0x903F)) 9) 7 = 0" "js_and (js_shr (toInt32 (Num 0x903F)) 6) 7 = 0"
  by (simp_all add: js_and_def js_shr_def toInt32_def)

lemma PC_state_not: "reg_get state_not PC + 1 = 0x3001"
  by (simp add: state_not_def reg_get_def toUint16_def PC_def REGISTERS_LENGTH_def)

lemma step_main_state_not:
  "step_main state_not = Some (True, not_main (Num 0x903F) (reg_set PC (Num 0x3001) state_not))"
  by (simp add: step_main_execute[OF fetch_state_not] opcode_0x903F execute_main_def opcode_defs
        PC_state_not)

lemma step_state_not:
  "step state_not = Some (True, not_op (Num 0x903F) (reg_set PC (Num 0x3001) state_not))"
  by (simp add: step_execute[OF fetch_state_not] opcode_0x903F execute_def opcode_defs
        PC_state_not)

lemma complement_of_zero: "word_of_int (js_not 0) = (0xFFFF :: 16 word)"
  by code_simp

lemma shift_of_undefined: "js_shr (toInt32 Undefined) 15 = 0"
  by (simp add: toInt32_def js_shr_def)

lemma R0_state_not: "registers (reg_set PC (Num 0x3001) state_not) 0 = 0"
  by (simp add: state_not_def initial_def PC_def REGISTERS_LENGTH_def)

lemma not_main_on_zero:
  assumes "registers s 0 = 0"
  shows "registers (not_main (Num 0x903F) s) 0 = 0xFFFF"
    and "registers (not_main (Num 0x903F) s) 9 = 1"
  unfolding not_main_def Let_def fields_0x903F updateCondFlag_main_def shift_of_undefined
  using assms
  by (simp_all add: reg_get_def toUint16_def complement_of_zero REGISTERS_LENGTH_def
        COND_def FL_POS_def)

lemma not_on_zero:
  assumes "registers s 0 = 0"
  shows "registers (not_op (Num 0x903F) s) 0 = 0xFFFF"
    and "registers (not_op (Num 0x903F) s) 9 = 4"
  unfolding not_op_def Let_def fields_0x903F updateCondFlag_registers
  using assms
  by (simp_all add: reg_get_def toUint16_def complement_of_zero REGISTERS_LENGTH_def COND_def)

text \<open>
  Claim C2 gives the rule of the flags: N whenever bit 15 of the result is set. The second
  variant of \<open>updateCondFlag\<close> tests \<open>register[register]\<close> where it means
  \<open>registers[register]\<close>, so it never chooses N. On the image \<open>NOT R0, R0\<close> with R0 = 0,
  one turn of the loop of \<open>main\<close> leaves R0 = 0xFFFF with COND = P, where the loop of
  \<open>run\<close> leaves COND = N as the claim says.
\<close>

theorem main_never_sets_negative_flag:
  "step_main state_not = Some (True, not_main (Num 0x903F) (reg_set PC (Num 0x3001) state_not))
   \<and> reg_get (not_main (Num 0x903F) (reg_set PC (Num 0x3001) state_not)) R0 = 0xFFFF
   \<and> reg_get (not_main (Num 0x903F) (reg_set PC (Num 0x3001) state_not)) COND = FL_POS
   \<and> step state_not = Some (True, not_op (Num 0x903F) (reg_set PC (Num 0x3001) state_not))
   \<and> reg_get (not_op (Num 0x903F) (reg_set PC (Num 0x3001) state_not)) R0 = 0xFFFF
   \<and> reg_get (not_op (Num 0x903F) (reg_set PC (Num 0x3001) state_not)) COND = FL_NEG"
  by (simp add: step_main_state_not step_state_not not_main_on_zero[OF R0_state_not]
        not_on_zero[OF R0_state_not] reg_get_def COND_def R0_def FL_POS_def FL_NEG_def)

section \<open>C3: the registers when the loop starts\<close>

lemma load_words_registers:
  "load_words buf offset memLocation s = Inr s' \<Longrightarrow>
     registers s' = registers s \<and> stdout s' = stdout s \<and> stdin s' = stdin s"
proof (induction buf offset memLocation s rule: load_words.induct)
  case (1 buf offset memLocation s)
  show ?case
  proof (cases "offset < length buf")
    case True
    with "1.prems" obtain word where
      w: "readUInt16BE buf offset = Inr word" and
      r: "load_words buf (offset + 2) (memLocation + 1) (writeMemory (Num memLocation) (Num word) s) = Inr s'"
      by (subst (asm) load_words.simps) (auto split: sum.splits)
    from "1.IH"[OF True w r] show ?thesis by simp
  next
    case False
    with "1.prems" show ?thesis by (subst (asm) load_words.simps) simp
  qed
qed

lemma boot_registers:
  assumes "boot programBuffer keys = Inr s"
  shows "registers s = (\<lambda>i. if i = PC then 0x3000 else 0)"
proof -
  from assms obtain origin s1 where
    l: "load_words programBuffer 2 origin (initial keys) = Inr s1" and
    s: "s = reg_set PC (Num 0x3000) s1"
    by (auto simp: boot_def load_image_def split: sum.splits)
  from load_words_registers[OF l] have "registers s1 = (\<lambda>_. 0)"
    by (simp add: initial_def)
  with s show ?thesis
    by (auto simp: PC_def REGISTERS_LENGTH_def toUint16_def)
qed

text \<open>
  Claim C3, as amended: whenever the image loads, the loop of \<open>run\<close> (and of \<open>main\<close>, which
  has the same lines) starts with PC = 0x3000 and every other register zero, COND
  included: nothing sets COND to Z (2) before the first flag-updating instruction.
\<close>

theorem boot_registers_reset:
  assumes "boot programBuffer keys = Inr s"
  shows "reg_get s PC = 0x3000 \<and> reg_get s COND = 0 \<and> (\<forall>i. i \<noteq> PC \<longrightarrow> reg_get s i = 0)"
  using boot_registers[OF assms] by (simp add: reg_get_def PC_def COND_def)

text \<open>The theorem at the image that holds \<open>TRAP HALT\<close>.\<close>

theorem boot_registers_reset_witness:
  "boot image_halt [] = Inr state_halt
   \<and> reg_get state_halt PC = 0x3000 \<and> reg_get state_halt COND = 0
   \<and> reg_get state_halt R0 = 0 \<and> reg_get state_halt R7 = 0"
  using boot_registers_reset[OF boot_image_halt] boot_image_halt
  by (auto simp: R0_def R7_def PC_def)

text \<open>Claim C3 as stated fails on that image: the loop starts with COND = 0, which is not Z.\<close>

theorem boot_leaves_COND_zero:
  "boot image_halt [] = Inr state_halt \<and> reg_get state_halt COND = 0
   \<and> reg_get state_halt COND \<noteq> FL_ZRO"
  by (simp add: boot_image_halt)
     (simp add: state_halt_def reg_get_def initial_def PC_def COND_def FL_ZRO_def
        REGISTERS_LENGTH_def)

section \<open>C4: TRAP and R7\<close>

lemma trap_frame:
  assumes "trap instr s = Some (running, s')"
  shows "\<forall>i. i \<noteq> R0 \<longrightarrow> registers s' i = registers s i"
  using trap_registers[OF assms] by simp

lemma trap_main_frame:
  assumes "trap_main instr s = Some (running, s')"
  shows "\<forall>i. i \<noteq> R0 \<longrightarrow> registers s' i = registers s i"
  using trap_main_registers[OF assms] by simp

text \<open>
  Claim C4, as amended: when the word fetched has the opcode 1111, one turn of the loop,
  in \<open>run\<close> and in \<open>main\<close> alike, leaves R7 as it was: no return address is stored. The
  PC holds the advanced value, and no register other than R0 (which GETC and IN write)
  and the PC changes, whatever the trap vector in bits 7..0.
\<close>

theorem trap_keeps_R7:
  assumes fetch: "readMemory (Num (reg_get s PC)) s = Some (instr, s1)"
    and op: "js_shr (toInt32 instr) 12 = OP_TRAP"
    and st: "step s = Some (running, s') \<or> step_main s = Some (running, s')"
  shows "registers s' R7 = registers s R7 \<and> registers s' PC = registers s PC + 1 \<and>
         (\<forall>i. i \<noteq> R0 \<and> i \<noteq> PC \<longrightarrow> registers s' i = registers s i)"
proof -
  let ?s2 = "reg_set PC (Num (reg_get s1 PC + 1)) s1"
  have "trap instr ?s2 = Some (running, s') \<or> trap_main instr ?s2 = Some (running, s')"
    using st by (simp only: step_execute[OF fetch] step_main_execute[OF fetch] op execute_TRAP
        execute_main_TRAP)
  then have "\<forall>i. i \<noteq> R0 \<longrightarrow> registers s' i = registers ?s2 i"
    using trap_frame trap_main_frame by blast
  then have "\<forall>i. i \<noteq> R0 \<longrightarrow> registers s' i = ((registers s)(PC := registers s PC + 1)) i"
    by (simp only: fetch_registers[OF fetch])
  then show ?thesis
    by (simp add: cond_constants)
qed

text \<open>The theorem at the image that holds \<open>TRAP HALT\<close>, for both loops.\<close>

theorem trap_keeps_R7_witness:
  "readMemory (Num (reg_get state_halt PC)) state_halt = Some (Num 0xF025, state_halt)
   \<and> js_shr (toInt32 (Num 0xF025)) 12 = OP_TRAP
   \<and> step state_halt = Some (False, reg_set PC (Num 0x3001) state_halt)
   \<and> registers (reg_set PC (Num 0x3001) state_halt) R7 = registers state_halt R7
   \<and> step_main state_halt =
        Some (False, write_string ''HALT'' (console_log ''0025'' (reg_set PC (Num 0x3001) state_halt)))
   \<and> registers (write_string ''HALT'' (console_log ''0025'' (reg_set PC (Num 0x3001) state_halt))) R7
        = registers state_halt R7"
proof -
  have a: "step state_halt = Some (False, reg_set PC (Num 0x3001) state_halt)
           \<or> step_main state_halt = Some (False, reg_set PC (Num 0x3001) state_halt)"
    using step_state_halt by simp
  have b: "step state_halt =
             Some (False, write_string ''HALT'' (console_log ''0025'' (reg_set PC (Num 0x3001) state_halt)))
           \<or> step_main state_halt =
             Some (False, write_string ''HALT'' (console_log ''0025'' (reg_set PC (Num 0x3001) state_halt)))"
    using step_main_state_halt by simp
  from trap_keeps_R7[OF fetch_state_halt opcode_0xF025 a]
       trap_keeps_R7[OF fetch_state_halt opcode_0xF025 b]
       fetch_state_halt opcode_0xF025 step_state_halt step_main_state_halt
  show ?thesis by simp
qed

text \<open>
  Claim C4 as stated fails on that image: after the turn of the loop that executes
  \<open>TRAP HALT\<close> the advanced PC is 0x3001 and R7 is still 0.
\<close>

theorem trap_stores_no_return_address:
  "readMemory (Num (reg_get state_halt PC)) state_halt = Some (Num 0xF025, state_halt)
   \<and> js_shr (toInt32 (Num 0xF025)) 12 = OP_TRAP
   \<and> step state_halt = Some (False, reg_set PC (Num 0x3001) state_halt)
   \<and> reg_get (reg_set PC (Num 0x3001) state_halt) PC = 0x3001
   \<and> reg_get (reg_set PC (Num 0x3001) state_halt) R7 = 0"
  by (simp add: fetch_state_halt opcode_0xF025 step_state_halt)
     (simp add: state_halt_def reg_get_def initial_def toUint16_def PC_def R7_def
        REGISTERS_LENGTH_def)

section \<open>C5: a read of KBSR\<close>

lemma pollForKey_cases:
  assumes "pollForKey s = Some (keyCode, s1)"
  shows "registers s1 = registers s \<and> memory s1 = memory s \<and>
         memory_undefined s1 = memory_undefined s \<and> stdout s1 = stdout s \<and>
         (keyCode = Undefined \<or> (\<exists>b. keyCode = Num (uint (b::8 word)) \<and> b \<noteq> 3))"
  using assms
  by (auto simp: pollForKey_def split: list.splits option.splits if_splits)

lemma toUint16_byte: "uint (toUint16 (Num (uint (b::8 word)))) = uint b"
proof -
  have "uint b < 65536" using uint_bounded[of b] by simp
  then show ?thesis by (simp add: uint_toUint16_Num)
qed

text \<open>
  Claim C5, as amended: a read of KBSR (0xFE00) polls the keyboard first and returns. If
  the poll yields a byte \<open>c\<close> other than 0, then afterwards mem[KBSR] = 0x8000 and
  mem[KBDR] = \<open>c\<close>; if it yields no key, or the byte 0, then mem[KBSR] = 0 and mem[KBDR]
  is unchanged. In both cases the read returns mem[KBSR], and no other memory cell, no
  register and nothing on the console changes.
\<close>

theorem kbsr_read_coherent:
  assumes "pollForKey s = Some (keyCode, s1)"
  shows "\<exists>s'. readMemory (Num MR_KBSR) s = Some (Num (uint (memory s' 0xFE00)), s') \<and>
           (\<forall>c. keyCode = Num c \<and> c \<noteq> 0 \<longrightarrow>
                  memory s' 0xFE00 = 0x8000 \<and> uint (memory s' 0xFE02) = c) \<and>
           (keyCode = Undefined \<or> keyCode = Num 0 \<longrightarrow>
                  memory s' 0xFE00 = 0 \<and> memory s' 0xFE02 = memory s 0xFE02) \<and>
           (\<forall>a. a \<noteq> 0xFE00 \<and> a \<noteq> 0xFE02 \<longrightarrow> memory s' a = memory s a) \<and>
           registers s' = registers s \<and> memory_undefined s' = memory_undefined s \<and>
           stdout s' = stdout s"
proof (cases "truthy keyCode")
  case True
  from pollForKey_cases[OF assms] True obtain b :: "8 word" where
    k: "keyCode = Num (uint b)" and fr: "registers s1 = registers s" "memory s1 = memory s"
      "memory_undefined s1 = memory_undefined s" "stdout s1 = stdout s"
    by (auto simp: truthy_def)
  let ?s' = "mem_set (Num MR_KBDR) keyCode (mem_set (Num MR_KBSR) (Num 0x8000) s1)"
  have r: "readMemory (Num MR_KBSR) s = Some (mem_get ?s' (Num MR_KBSR), ?s')"
    using assms True by (simp add: readMemory_def Let_def)
  have m: "memory ?s' = (memory s)(0xFE00 := 0x8000, 0xFE02 := toUint16 keyCode)"
    by (simp add: memory_mem_set_Num MR_KBSR_def MR_KBDR_def fr toUint16_def)
  have g: "mem_get ?s' (Num MR_KBSR) = Num (uint (memory ?s' 0xFE00))"
    by (simp add: mem_get_Num MR_KBSR_def)
  show ?thesis
    apply (rule exI[of _ ?s'])
    using True r g m fr k by (auto simp: toUint16_byte truthy_def)
next
  case False
  let ?s' = "mem_set (Num MR_KBSR) (Num 0) s1"
  from pollForKey_cases[OF assms] have fr: "registers s1 = registers s" "memory s1 = memory s"
      "memory_undefined s1 = memory_undefined s" "stdout s1 = stdout s"
    by auto
  have r: "readMemory (Num MR_KBSR) s = Some (mem_get ?s' (Num MR_KBSR), ?s')"
    using assms False by (simp add: readMemory_def Let_def)
  have m: "memory ?s' = (memory s)(0xFE00 := 0)"
    by (simp add: memory_mem_set_Num MR_KBSR_def fr toUint16_def)
  have g: "mem_get ?s' (Num MR_KBSR) = Num (uint (memory ?s' 0xFE00))"
    by (simp add: mem_get_Num MR_KBSR_def)
  show ?thesis
    apply (rule exI[of _ ?s'])
    using False r g m fr by (auto simp: truthy_def)
qed

text \<open>The theorem at a keyboard that delivers the byte 0x41.\<close>

theorem kbsr_read_coherent_witness:
  "pollForKey (initial [Some 0x41]) = Some (Num 0x41, initial [])
   \<and> (\<exists>s'. readMemory (Num MR_KBSR) (initial [Some 0x41]) = Some (Num (uint (memory s' 0xFE00)), s')
          \<and> memory s' 0xFE00 = 0x8000 \<and> uint (memory s' 0xFE02) = 0x41)"
proof -
  have p: "pollForKey (initial [Some 0x41]) = Some (Num 0x41, initial [])"
    by (simp add: pollForKey_def initial_def)
  from kbsr_read_coherent[OF p] p show ?thesis by auto
qed

text \<open>
  Claim C5 as stated fails when the poll yields the byte 0: the read leaves mem[KBSR] = 0,
  not 0x8000.
\<close>

theorem kbsr_read_of_nul_byte:
  "pollForKey (initial [Some 0]) = Some (Num 0, initial [])
   \<and> readMemory (Num MR_KBSR) (initial [Some 0])
       = Some (Num 0, mem_set (Num MR_KBSR) (Num 0) (initial []))
   \<and> mem_get (mem_set (Num MR_KBSR) (Num 0) (initial [])) (Num MR_KBSR) \<noteq> Num 0x8000"
  by (simp add: pollForKey_def readMemory_def initial_def truthy_def mem_get_Num memory_mem_set_Num
        MR_KBSR_def toUint16_def)

section \<open>C6: sign extension\<close>

text \<open>
  \<open>signExtendSuffix\<close>, which \<open>run\<close> uses, is the function of the claim: on a 16-bit word
  \<open>v\<close> and a width \<open>w\<close> in {5, 6, 9, 11} it returns the 16-bit word made of the low \<open>w\<close>
  bits of \<open>v\<close>, with 1-bits in the positions \<open>w..15\<close> when bit \<open>w - 1\<close> is set.
\<close>

lemma signExtendSuffix_spec:
  fixes v :: "16 word"
  assumes "w \<in> {5, 6, 9, 11}"
  shows "signExtendSuffix (Num (uint v)) (int w) =
     uint (if bit v (w - 1) then take_bit w v OR push_bit w (0xFFFF::16 word) else take_bit w v)"
  using assms by (intro signExtendSuffix_word) auto

text \<open>
  Claim C6 says that sign extension returns a 16-bit word. \<open>signExtend\<close>, which the
  handlers of the second variant call on the masked field, ORs in \<open>0xFFFF << bitCount\<close>
  and does not cut the result to 16 bits: for the 5-bit field 0x1F (that is -1) it
  returns 0x1FFFFF, where \<open>signExtendSuffix\<close> returns 0xFFFF as the claim says.
\<close>

theorem signExtend_exceeds_16_bits:
  "signExtend (js_and (toInt32 (Num 0x1F)) 31) 5 = 0x1FFFFF
   \<and> signExtendSuffix (Num 0x1F) 5 = 0xFFFF"
  by (simp add: signExtend_def signExtendSuffix_def toInt32_def js_and_def js_shr_def js_shl_def
        js_or_def)

section \<open>C7: TRAP OUT\<close>

text \<open>
  Claim C7, as amended: in \<open>run\<close>, executing TRAP with the vector 0x21 writes exactly one
  character to the console, the one whose code unit is the whole 16-bit value of R0 (the
  low 8 bits of R0 only when R0 is at most 0xFF); it reads no memory and leaves all
  registers, the memory and the keyboard as they were.
\<close>

theorem trap_out_writes_R0:
  assumes "js_and (toInt32 instr) 0xFF = TRAP_OUT"
  shows "execute OP_TRAP instr s = Some (True, s\<lparr>stdout := stdout s @ [registers s R0]\<rparr>)"
  using assms
  by (simp add: execute_TRAP trap_def Let_def trapOut_def write_char_def reg_get_def toUint16_def
        TRAP_OUT_def TRAP_GETC_def TRAP_HALT_def TRAP_IN_def)

text \<open>The theorem at the word 0xF021 with R0 = 0x48.\<close>

theorem trap_out_writes_R0_witness:
  "js_and (toInt32 (Num 0xF021)) 0xFF = TRAP_OUT \<and>
   execute OP_TRAP (Num 0xF021) (reg_set R0 (Num 0x48) (initial []))
     = Some (True, (reg_set R0 (Num 0x48) (initial []))\<lparr>stdout := [0x48]\<rparr>)"
proof -
  have h: "js_and (toInt32 (Num 0xF021)) 0xFF = TRAP_OUT"
    by (simp add: toInt32_def js_and_def TRAP_OUT_def)
  from trap_out_writes_R0[OF h, of "reg_set R0 (Num 0x48) (initial [])"] h
  show ?thesis by (simp add: initial_def R0_def REGISTERS_LENGTH_def toUint16_def)
qed

text \<open>
  Claim C7 as stated fails for R0 = 0x0141: what is written is the code unit 0x0141, not
  its low 8 bits 0x41.
\<close>

theorem trap_out_writes_all_16_bits:
  "execute OP_TRAP (Num 0xF021) (reg_set R0 (Num 0x141) (initial []))
     = Some (True, trapOut (reg_set R0 (Num 0x141) (initial [])))
   \<and> stdout (trapOut (reg_set R0 (Num 0x141) (initial []))) = [0x141]
   \<and> (0x141 :: 16 word) \<noteq> 0x141 AND 0xFF"
  by (simp add: execute_TRAP trap_def Let_def toInt32_def js_and_def
        TRAP_OUT_def TRAP_GETC_def TRAP_HALT_def TRAP_IN_def)
     (simp add: trapOut_def write_char_def reg_get_def initial_def R0_def REGISTERS_LENGTH_def
        toUint16_def)

text \<open>
  The \<open>trapOut\<close> of the second variant does read memory: it writes the word stored at
  the address in R0, not R0.
\<close>

lemma trapOut_main_reads_memory:
  "trapOut_main (reg_set R0 (Num 0x48) (initial []))
     = Some (write_char (Num 0) (reg_set R0 (Num 0x48) (initial [])))"
  by (simp add: trapOut_main_def readMemory_def mem_get_Num reg_get_def initial_def R0_def
        REGISTERS_LENGTH_def toUint16_def MR_KBSR_def)

section \<open>C8: the loader\<close>

lemma load_words_memory:
  assumes "offset \<le> length buf" "even (length buf - offset)" "0 \<le> memLocation"
  shows "\<exists>s'. load_words buf offset memLocation s = Inr s' \<and>
           registers s' = registers s \<and> stdout s' = stdout s \<and> stdin s' = stdin s \<and>
           memory_undefined s' = memory_undefined s \<and>
           (\<forall>a<65535. memory s' a =
              (if memLocation \<le> int a \<and> int a < memLocation + int ((length buf - offset) div 2)
               then word_of_int (uint (buf ! (offset + 2 * (a - nat memLocation))) * 256
                                 + uint (buf ! (offset + 2 * (a - nat memLocation) + 1)))
               else memory s a))"
  using assms
proof (induction buf offset memLocation s rule: load_words.induct)
  case (1 buf offset memLocation s)
  show ?case
  proof (cases "offset < length buf")
    case False
    with "1.prems" show ?thesis
      by (subst load_words.simps) auto
  next
    case True
    with "1.prems" have two: "offset + 2 \<le> length buf"
      by (cases "length buf - offset") (auto elim: oddE)
    define word where "word = uint (buf ! offset) * 256 + uint (buf ! (offset + 1))"
    define s1 where "s1 = writeMemory (Num memLocation) (Num word) s"
    have rd: "readUInt16BE buf offset = Inr word"
      using two by (simp add: readUInt16BE_def word_def)
    have ev: "even (length buf - (offset + 2))"
      using "1.prems"(2) two by simp
    from "1.IH"[OF True rd two ev] "1.prems"(3)
    obtain s' where
      l: "load_words buf (offset + 2) (memLocation + 1) s1 = Inr s'" and
      fr: "registers s' = registers s1" "stdout s' = stdout s1" "stdin s' = stdin s1"
          "memory_undefined s' = memory_undefined s1" and
      m: "\<forall>a<65535. memory s' a =
              (if memLocation + 1 \<le> int a \<and> int a < memLocation + 1 + int ((length buf - (offset + 2)) div 2)
               then word_of_int (uint (buf ! (offset + 2 + 2 * (a - nat (memLocation + 1)))) * 256
                                 + uint (buf ! (offset + 2 + 2 * (a - nat (memLocation + 1)) + 1)))
               else memory s1 a)"
      unfolding s1_def by auto
    have res: "load_words buf offset memLocation s = Inr s'"
      using True rd l by (subst load_words.simps) (simp add: s1_def)
    have n: "(length buf - offset) div 2 = Suc ((length buf - (offset + 2)) div 2)"
      using two by arith
    have m1: "memory s1 a = (if int a = memLocation then word_of_int word else memory s a)"
      if "a < 65535" for a
      using that "1.prems"(3)
      by (auto simp: s1_def writeMemory_def memory_mem_set_Num toUint16_def)
    have "memory s' a =
              (if memLocation \<le> int a \<and> int a < memLocation + int ((length buf - offset) div 2)
               then word_of_int (uint (buf ! (offset + 2 * (a - nat memLocation))) * 256
                                 + uint (buf ! (offset + 2 * (a - nat memLocation) + 1)))
               else memory s a)" if a: "a < 65535" for a
    proof (cases "int a = memLocation")
      case True
      then show ?thesis using m a m1[OF a] by (simp add: n word_def)
    next
      case False
      show ?thesis
      proof (cases "memLocation + 1 \<le> int a \<and> int a < memLocation + 1 + int ((length buf - (offset + 2)) div 2)")
        case True
        then obtain j where j: "a - nat memLocation = Suc j" "a - nat (memLocation + 1) = j"
          using "1.prems"(3) by (cases "a - nat memLocation") (auto simp: nat_add_distrib)
        from True show ?thesis using m a by (simp add: n j)
      next
        case F2: False
        with False m a m1[OF a] show ?thesis by (auto simp add: n)
      qed
    qed
    with res fr show ?thesis by (simp add: s1_def writeMemory_def)
  qed
qed

lemma be16_uint:
  "uint (word_of_int (uint (x::8 word) * 256 + uint (y::8 word)) :: 16 word) = uint x * 256 + uint y"
proof -
  have "uint x * 256 + uint y < 65536" "0 \<le> uint x * 256 + uint y"
    using uint_bounded[of x] uint_bounded[of y] by simp_all
  then show ?thesis
    by (simp only: uint_word_of_int) simp
qed

text \<open>
  Claim C8, as amended: every byte sequence of even length that holds the origin \<open>O\<close> and
  then the words \<open>W_0, ..., W_(n-1)\<close>, big-endian, loads. Afterwards the cell \<open>O + i\<close>
  holds \<open>W_i\<close> for every \<open>i < n\<close> with \<open>O + i < 0xFFFF\<close>, and every cell below \<open>O\<close> or
  from \<open>O + n\<close> on is unchanged: the address does not wrap around at \<open>2^16\<close>, and the words
  whose address would be beyond the memory are dropped. The registers are unchanged. (The
  loop of \<open>main\<close> has the same lines.)
\<close>

theorem loader_cells:
  assumes "even (length buf)" "2 \<le> length buf"
  shows "\<exists>origin s'. readUInt16BE buf 0 = Inr origin \<and> load_image buf s = Inr s' \<and>
     (\<forall>i. 2 + 2 * i < length buf \<and> origin + int i < 0xFFFF \<longrightarrow>
          readUInt16BE buf (2 + 2 * i) = Inr (uint (memory s' (nat origin + i)))) \<and>
     (\<forall>a<0xFFFF. int a < origin \<or> origin + int ((length buf - 2) div 2) \<le> int a \<longrightarrow>
          memory s' a = memory s a) \<and>
     registers s' = registers s \<and> memory_undefined s' = memory_undefined s"
proof -
  define origin where "origin = uint (buf ! 0) * 256 + uint (buf ! 1)"
  have o: "readUInt16BE buf 0 = Inr origin"
    using assms by (simp add: readUInt16BE_def origin_def)
  have o0: "0 \<le> origin" by (simp add: origin_def)
  have ev: "even (length buf - 2)" using assms by simp
  from load_words_memory[OF assms(2) ev o0, of s]
  obtain s' where
    l: "load_words buf 2 origin s = Inr s'" and
    fr: "registers s' = registers s" "memory_undefined s' = memory_undefined s" and
    m: "\<And>a. a < 65535 \<Longrightarrow> memory s' a =
              (if origin \<le> int a \<and> int a < origin + int ((length buf - 2) div 2)
               then word_of_int (uint (buf ! (2 + 2 * (a - nat origin))) * 256
                                 + uint (buf ! (2 + 2 * (a - nat origin) + 1)))
               else memory s a)"
    by auto
  have li: "load_image buf s = Inr s'"
    using o l by (simp add: load_image_def)
  have w: "readUInt16BE buf (2 + 2 * i) = Inr (uint (memory s' (nat origin + i)))"
    if i: "2 + 2 * i < length buf" "origin + int i < 0xFFFF" for i
  proof -
    have i2: "2 + 2 * i + 2 \<le> length buf"
      using i(1) assms(1) by (elim evenE) arith
    have a: "nat origin + i < 65535" using i(2) o0 by simp
    have r: "origin \<le> int (nat origin + i) \<and> int (nat origin + i) < origin + int ((length buf - 2) div 2)"
      using o0 i2 by auto
    have "memory s' (nat origin + i) =
            word_of_int (uint (buf ! (2 + 2 * (nat origin + i - nat origin))) * 256
                         + uint (buf ! (2 + 2 * (nat origin + i - nat origin) + 1)))"
      using m[OF a] r by (simp only: if_True simp_thms)
    then have "uint (memory s' (nat origin + i)) =
                 uint (buf ! (2 + 2 * i)) * 256 + uint (buf ! (2 + 2 * i + 1))"
      by (simp only: be16_uint add_diff_cancel_left')
    then show ?thesis using i2 by (simp add: readUInt16BE_def)
  qed
  have u: "memory s' a = memory s a"
    if "a < 0xFFFF" "int a < origin \<or> origin + int ((length buf - 2) div 2) \<le> int a" for a
    using m[of a] that by auto
  show ?thesis using o li w u fr by blast
qed

text \<open>The theorem at the image that holds the single word 0x1234.\<close>

theorem loader_cells_witness:
  "even (length image_word) \<and> 2 \<le> length image_word \<and>
   (\<exists>origin s'. readUInt16BE image_word 0 = Inr origin \<and>
      load_image image_word (initial []) = Inr s' \<and>
      (\<forall>i. 2 + 2 * i < length image_word \<and> origin + int i < 0xFFFF \<longrightarrow>
          readUInt16BE image_word (2 + 2 * i) = Inr (uint (memory s' (nat origin + i)))) \<and>
      (\<forall>a<0xFFFF. int a < origin \<or> origin + int ((length image_word - 2) div 2) \<le> int a \<longrightarrow>
          memory s' a = memory (initial []) a) \<and>
      registers s' = registers (initial []) \<and>
      memory_undefined s' = memory_undefined (initial []))"
proof -
  have e: "even (length image_word)" by (simp add: image_word_def)
  have l: "2 \<le> length image_word" by (simp add: image_word_def)
  from loader_cells[OF e l, of "initial []"] e l show ?thesis by blast
qed

text \<open>
  Claim C8 as stated fails on the image with the origin 0xFFFE and the words 1, 2, 3: the
  third word has the address 0x10000, which the claim wraps to 0x0000, and the cell
  0x0000 is still 0 after loading. Only the first word is stored.
\<close>

theorem loader_does_not_wrap:
  "load_image image_top (initial []) = Inr (writeMemory (Num 0xFFFE) (Num 1) (initial []))
   \<and> mem_get (writeMemory (Num 0xFFFE) (Num 1) (initial [])) (Num 0) = Num 0
   \<and> mem_get (writeMemory (Num 0xFFFE) (Num 1) (initial [])) (Num 0) \<noteq> Num 3"
  by (simp add: image_top_def load_image_def readUInt16BE_def load_words.simps writeMemory_def
        mem_set_def MEMORY_LENGTH_def mem_get_def initial_def)

text \<open>So \<open>run\<close> reaches its loop on every image of even length that holds an origin.\<close>

lemma boot_returns:
  assumes "even (length buf)" "2 \<le> length buf"
  shows "\<exists>s. boot buf keys = Inr s"
proof -
  have o: "readUInt16BE buf 0 = Inr (uint (buf ! 0) * 256 + uint (buf ! 1))"
    using assms by (simp add: readUInt16BE_def)
  have "even (length buf - 2)" using assms by simp
  from load_words_memory[OF assms(2) this, of "uint (buf ! 0) * 256 + uint (buf ! 1)" "initial keys"]
  obtain s' where "load_words buf 2 (uint (buf ! 0) * 256 + uint (buf ! 1)) (initial keys) = Inr s'"
    by auto
  with o show ?thesis by (simp add: boot_def load_image_def)
qed

section \<open>C9: the instructions that leave COND alone\<close>

lemma branch_main_registers: "i \<noteq> PC \<Longrightarrow> registers (branch_main instr s) i = registers s i"
  by (simp add: branch_main_def Let_def)

lemma jump_main_registers: "i \<noteq> PC \<Longrightarrow> registers (jump_main instr s) i = registers s i"
  by (simp add: jump_main_def Let_def)

lemma jumpToSubroutine_main_registers:
  "i \<noteq> PC \<Longrightarrow> i \<noteq> R7 \<Longrightarrow> registers (jumpToSubroutine_main instr s) i = registers s i"
  by (simp add: jumpToSubroutine_main_def Let_def)

lemma store_main_registers: "registers (store_main instr s) = registers s"
  by (simp add: store_main_def Let_def)

lemma storeOffset_main_registers: "registers (storeOffset_main instr s) = registers s"
  by (simp add: storeOffset_main_def Let_def)

lemma storeIndirect_main_registers:
  "storeIndirect_main instr s = Some s' \<Longrightarrow> registers s' = registers s"
  by (auto simp: storeIndirect_main_def Let_def split: Option.bind_splits
      dest!: readMemory_registers)

lemma execute_main_keeps_COND:
  assumes op: "opcode \<in> {OP_BR, OP_JMP, OP_JSR, OP_ST, OP_STI, OP_STR, OP_TRAP}"
    and ex: "execute_main opcode instr s = Some (running, s')"
  shows "registers s' COND = registers s COND"
proof -
  from op consider "opcode = OP_BR" | "opcode = OP_JMP" | "opcode = OP_JSR" | "opcode = OP_ST"
    | "opcode = OP_STI" | "opcode = OP_STR" | "opcode = OP_TRAP"
    by auto
  then show ?thesis
  proof cases
    case 1
    with ex have "s' = branch_main instr s" by (simp add: execute_main_def opcode_defs)
    then show ?thesis by (simp add: branch_main_registers cond_constants)
  next
    case 2
    with ex have "s' = jump_main instr s" by (simp add: execute_main_def opcode_defs)
    then show ?thesis by (simp add: jump_main_registers cond_constants)
  next
    case 3
    with ex have "s' = jumpToSubroutine_main instr s" by (simp add: execute_main_def opcode_defs)
    then show ?thesis by (simp add: jumpToSubroutine_main_registers cond_constants)
  next
    case 4
    with ex have "s' = store_main instr s" by (simp add: execute_main_def opcode_defs)
    then show ?thesis by (simp add: store_main_registers)
  next
    case 5
    with ex have "storeIndirect_main instr s = Some s'"
      by (auto simp: execute_main_def opcode_defs)
    then show ?thesis by (simp add: storeIndirect_main_registers)
  next
    case 6
    with ex have "s' = storeOffset_main instr s" by (simp add: execute_main_def opcode_defs)
    then show ?thesis by (simp add: storeOffset_main_registers)
  next
    case 7
    with ex have "trap_main instr s = Some (running, s')"
      by (simp add: execute_main_def opcode_defs)
    then show ?thesis by (rule trap_main_registers) (simp add: cond_constants)
  qed
qed

text \<open>
  Claim C9: when the word fetched has the opcode BR, JMP, JSR, ST, STI, STR or TRAP (with
  any trap vector), one turn of the loop leaves COND unchanged. This holds for the loop of
  \<open>run\<close>, whose handlers the claim names, and for the loop of \<open>main\<close> as well.
\<close>

theorem control_store_trap_keep_COND:
  assumes fetch: "readMemory (Num (reg_get s PC)) s = Some (instr, s1)"
    and op: "js_shr (toInt32 instr) 12 \<in> {OP_BR, OP_JMP, OP_JSR, OP_ST, OP_STI, OP_STR, OP_TRAP}"
    and st: "step s = Some (running, s') \<or> step_main s = Some (running, s')"
  shows "reg_get s' COND = reg_get s COND"
proof -
  let ?s2 = "reg_set PC (Num (reg_get s1 PC + 1)) s1"
  have "execute (js_shr (toInt32 instr) 12) instr ?s2 = Some (running, s')
        \<or> execute_main (js_shr (toInt32 instr) 12) instr ?s2 = Some (running, s')"
    using st by (simp only: step_execute[OF fetch] step_main_execute[OF fetch])
  then have "registers s' COND = registers ?s2 COND"
    using execute_keeps_COND[OF op] execute_main_keeps_COND[OF op] by blast
  moreover have "registers ?s2 COND = registers s COND"
    by (rule fetch_registers_other[OF fetch]) (simp add: cond_constants)
  ultimately show ?thesis
    by (simp add: reg_get_def)
qed

text \<open>The theorem at the image that holds \<open>TRAP HALT\<close>, for both loops.\<close>

theorem control_store_trap_keep_COND_witness:
  "readMemory (Num (reg_get state_halt PC)) state_halt = Some (Num 0xF025, state_halt)
   \<and> js_shr (toInt32 (Num 0xF025)) 12 \<in> {OP_BR, OP_JMP, OP_JSR, OP_ST, OP_STI, OP_STR, OP_TRAP}
   \<and> step state_halt = Some (False, reg_set PC (Num 0x3001) state_halt)
   \<and> reg_get (reg_set PC (Num 0x3001) state_halt) COND = reg_get state_halt COND
   \<and> step_main state_halt =
        Some (False, write_string ''HALT'' (console_log ''0025'' (reg_set PC (Num 0x3001) state_halt)))
   \<and> reg_get (write_string ''HALT'' (console_log ''0025'' (reg_set PC (Num 0x3001) state_halt))) COND
        = reg_get state_halt COND"
proof -
  have o: "js_shr (toInt32 (Num 0xF025)) 12 \<in> {OP_BR, OP_JMP, OP_JSR, OP_ST, OP_STI, OP_STR, OP_TRAP}"
    by (simp add: opcode_0xF025)
  have a: "step state_halt = Some (False, reg_set PC (Num 0x3001) state_halt)
           \<or> step_main state_halt = Some (False, reg_set PC (Num 0x3001) state_halt)"
    using step_state_halt by simp
  have b: "step state_halt =
             Some (False, write_string ''HALT'' (console_log ''0025'' (reg_set PC (Num 0x3001) state_halt)))
           \<or> step_main state_halt =
             Some (False, write_string ''HALT'' (console_log ''0025'' (reg_set PC (Num 0x3001) state_halt)))"
    using step_main_state_halt by simp
  from control_store_trap_keep_COND[OF fetch_state_halt o a]
       control_store_trap_keep_COND[OF fetch_state_halt o b]
       fetch_state_halt o step_state_halt step_main_state_halt
  show ?thesis by simp
qed

section \<open>C10: the byte 0 from the keyboard\<close>

text \<open>
  Claim C10: when the poll obtains the byte 0, a read of KBSR returns 0, sets mem[KBSR]
  to 0 and leaves mem[KBDR] unchanged, as after no key. So whenever a read of KBSR leaves
  mem[KBSR] = 0x8000, the low byte of mem[KBDR] is not 0.
\<close>

theorem nul_key_is_no_key:
  "(pollForKey s = Some (Num 0, s1) \<longrightarrow>
      (\<exists>s'. readMemory (Num MR_KBSR) s = Some (Num 0, s') \<and>
            memory s' 0xFE00 = 0 \<and> memory s' 0xFE02 = memory s 0xFE02))
   \<and> (readMemory (Num MR_KBSR) s = Some (v, s2) \<and> memory s2 0xFE00 = 0x8000 \<longrightarrow>
        take_bit 8 (memory s2 0xFE02) \<noteq> 0)"
proof (intro conjI impI)
  assume p: "pollForKey s = Some (Num 0, s1)"
  let ?s' = "mem_set (Num MR_KBSR) (Num 0) s1"
  from pollForKey_cases[OF p] have fr: "memory s1 = memory s" by auto
  have r: "readMemory (Num MR_KBSR) s = Some (mem_get ?s' (Num MR_KBSR), ?s')"
    using p by (simp add: readMemory_def Let_def truthy_def)
  have m: "memory ?s' = (memory s)(0xFE00 := 0)"
    by (simp add: memory_mem_set_Num MR_KBSR_def fr toUint16_def)
  have g: "mem_get ?s' (Num MR_KBSR) = Num 0"
    using m by (simp add: mem_get_Num MR_KBSR_def)
  show "\<exists>s'. readMemory (Num MR_KBSR) s = Some (Num 0, s') \<and>
            memory s' 0xFE00 = 0 \<and> memory s' 0xFE02 = memory s 0xFE02"
    using r g m by (intro exI[of _ ?s']) simp
next
  assume a: "readMemory (Num MR_KBSR) s = Some (v, s2) \<and> memory s2 0xFE00 = 0x8000"
  then obtain keyCode s1 where p: "pollForKey s = Some (keyCode, s1)"
    by (auto simp: readMemory_def split: Option.bind_splits)
  from pollForKey_cases[OF p] have fr: "memory s1 = memory s"
    and k: "keyCode = Undefined \<or> (\<exists>b::8 word. keyCode = Num (uint b))" by auto
  show "take_bit 8 (memory s2 0xFE02) \<noteq> 0"
  proof (cases "truthy keyCode")
    case False
    with a p have "memory s2 0xFE00 = 0"
      by (auto simp: readMemory_def Let_def memory_mem_set_Num MR_KBSR_def toUint16_def)
    with a show ?thesis by simp
  next
    case True
    with k obtain b :: "8 word" where b1: "keyCode = Num (uint b)"
      by (auto simp: truthy_def)
    with True have "uint b \<noteq> 0" by (simp add: truthy_def)
    then have "b \<noteq> 0" by auto
    note b = b1 this
    from a p True have "memory s2 0xFE02 = toUint16 keyCode"
      by (auto simp: readMemory_def Let_def memory_mem_set_Num MR_KBSR_def MR_KBDR_def)
    then have u: "uint (memory s2 0xFE02) = uint b"
      using b by (simp add: toUint16_byte)
    have "uint b < 2 ^ 8" using uint_bounded[of b] by simp
    then have "take_bit 8 (uint b) = uint b"
      by (simp add: take_bit_int_eq_self)
    then have "uint (take_bit 8 (memory s2 0xFE02)) = uint b"
      by (simp add: unsigned_take_bit_eq u)
    moreover have "uint b \<noteq> 0" using b(2) by (simp add: uint_0_iff)
    ultimately show ?thesis by auto
  qed
qed

text \<open>The theorem at a keyboard that delivers the byte 0, and at one that delivers 0x41.\<close>

theorem nul_key_is_no_key_witness:
  "pollForKey (initial [Some 0]) = Some (Num 0, initial [])
   \<and> (\<exists>s'. readMemory (Num MR_KBSR) (initial [Some 0]) = Some (Num 0, s') \<and>
            memory s' 0xFE00 = 0 \<and> memory s' 0xFE02 = memory (initial [Some 0]) 0xFE02)
   \<and> readMemory (Num MR_KBSR) (initial [Some 0x41])
       = Some (Num 0x8000, mem_set (Num MR_KBDR) (Num 0x41) (mem_set (Num MR_KBSR) (Num 0x8000) (initial [])))
   \<and> memory (mem_set (Num MR_KBDR) (Num 0x41) (mem_set (Num MR_KBSR) (Num 0x8000) (initial []))) 0xFE00
       = 0x8000
   \<and> take_bit 8 (memory (mem_set (Num MR_KBDR) (Num 0x41)
                    (mem_set (Num MR_KBSR) (Num 0x8000) (initial []))) 0xFE02) \<noteq> 0"
proof -
  let ?s = "mem_set (Num MR_KBDR) (Num 0x41) (mem_set (Num MR_KBSR) (Num 0x8000) (initial []))"
  have p: "pollForKey (initial [Some 0]) = Some (Num 0, initial [])"
    by (simp add: pollForKey_def initial_def)
  have r: "readMemory (Num MR_KBSR) (initial [Some 0x41]) = Some (Num 0x8000, ?s)"
    by (simp add: pollForKey_def readMemory_def initial_def truthy_def mem_get_Num
        memory_mem_set_Num MR_KBSR_def MR_KBDR_def toUint16_def)
  have m: "memory ?s 0xFE00 = 0x8000"
    by (simp add: memory_mem_set_Num MR_KBSR_def MR_KBDR_def toUint16_def)
  from nul_key_is_no_key[of "initial [Some 0]" "initial []"] p
  have 1: "\<exists>s'. readMemory (Num MR_KBSR) (initial [Some 0]) = Some (Num 0, s') \<and>
            memory s' 0xFE00 = 0 \<and> memory s' 0xFE02 = memory (initial [Some 0]) 0xFE02"
    by blast
  from nul_key_is_no_key[of "initial [Some 0x41]" _ "Num 0x8000" ?s] r m
  have 2: "take_bit 8 (memory ?s 0xFE02) \<noteq> 0"
    by blast
  from p 1 r m 2 show ?thesis by blast
qed

end
